theory Spec2Isabelle
  imports Complex_Main "HOL-Library.Multiset"
begin

section \<open>Data model: the tables of the migration\<close>

text \<open>
  The four tables of the migration, one record per table, one field per column.
  A \<open>UUID\<close> is kept as its text, as the TypeScript pages hold it; a \<open>TIMESTAMPTZ\<close> is a
  point on a discrete clock; a \<open>DECIMAL(10,2)\<close> is the integer number of hundredths, so the
  value 12.50 is 1250 and the column holds exactly the integers of absolute value below
  \<open>10 ^ 10\<close>.  Nullable columns are options.  The timestamp columns are nullable in the
  migration but are only ever written from \<open>NOW()\<close>, so they are plain timestamps here.
  Field names follow the columns.  The key column \<open>id\<close> is \<open>profile_id\<close>, \<open>category_pk\<close>,
  \<open>product_pk\<close> and \<open>movement_pk\<close>; \<open>name\<close>, \<open>description\<close> and \<open>created_at\<close> occur in several
  tables and carry the table as a prefix outside \<open>stock_movements\<close>, whose \<open>notes\<close> is
  \<open>movement_notes\<close>.
\<close>

type_synonym uuid = string
type_synonym timestamptz = nat
type_synonym decimal_10_2 = int

record profile =
  profile_id :: uuid
  full_name :: string
  profile_created_at :: timestamptz

record category =
  category_pk :: uuid
  category_name :: string
  category_description :: "string option"
  category_created_at :: timestamptz

record product =
  product_pk :: uuid
  product_name :: string
  product_description :: "string option"
  category_id :: "uuid option"
  unit :: string
  current_quantity :: decimal_10_2
  minimum_quantity :: decimal_10_2
  product_created_at :: timestamptz
  updated_at :: timestamptz

record stock_movement =
  movement_pk :: uuid
  product_id :: uuid
  movement_type :: string
  quantity :: decimal_10_2
  responsible_user_id :: uuid
  movement_notes :: "string option"
  created_at :: timestamptz

text \<open>The database: \<open>auth.users\<close> (only its key matters here) and the four public tables,
  each a list of rows in insertion order.\<close>

record db =
  auth_users :: "uuid list"
  profiles :: "profile list"
  categories :: "category list"
  products :: "product list"
  stock_movements :: "stock_movement list"

text \<open>What a statement reads from its surroundings: \<open>auth.uid()\<close> of the request (\<open>None\<close> for
  the anonymous role, \<open>Some u\<close> for the role \<open>authenticated\<close>), \<open>NOW()\<close> of the transaction,
  and the value \<open>gen_random_uuid()\<close> returns for the row being inserted.\<close>

record env =
  auth_uid :: "uuid option"
  now :: timestamptz
  gen_random_uuid :: uuid

text \<open>The conditions a statement can raise; any of them aborts the statement and rolls the
  transaction back, so a failed statement leaves the database as it was.\<close>

datatype pg_error =
    Insufficient_privilege
  | Not_null_violation
  | Check_violation
  | Unique_violation
  | Foreign_key_violation
  | Numeric_value_out_of_range

definition and_then :: "pg_error + 'a \<Rightarrow> ('a \<Rightarrow> pg_error + 'b) \<Rightarrow> pg_error + 'b" where
  "and_then r f = (case r of Inl err \<Rightarrow> Inl err | Inr v \<Rightarrow> f v)"

definition fits_decimal_10_2 :: "int \<Rightarrow> bool" where
  "fits_decimal_10_2 v \<longleftrightarrow> \<bar>v\<bar> < 10 ^ 10"

section \<open>Row level security: the CREATE POLICY statements\<close>

text \<open>
  Every table has row level security enabled.  A policy table gives, per command, the
  condition of the policy the migration creates for it, or \<open>None\<close> where the migration
  creates none; with row level security enabled a command without a policy is denied on
  every row.  \<open>TO authenticated\<close> is the test \<open>auth_uid e \<noteq> None\<close>.
\<close>

datatype command = SELECT | INSERT | UPDATE | DELETE

definition profiles_policy :: "command \<Rightarrow> (env \<Rightarrow> profile \<Rightarrow> bool) option" where
  "profiles_policy c =
     (case c of
        SELECT \<Rightarrow> Some (\<lambda>e r. auth_uid e = Some (profile_id r))
      | UPDATE \<Rightarrow> Some (\<lambda>e r. auth_uid e = Some (profile_id r))
      | INSERT \<Rightarrow> None
      | DELETE \<Rightarrow> None)"

definition categories_policy :: "command \<Rightarrow> (env \<Rightarrow> category \<Rightarrow> bool) option" where
  "categories_policy c =
     (case c of
        SELECT \<Rightarrow> Some (\<lambda>e r. auth_uid e \<noteq> None \<and> True)
      | INSERT \<Rightarrow> Some (\<lambda>e r. auth_uid e \<noteq> None \<and> True)
      | UPDATE \<Rightarrow> Some (\<lambda>e r. auth_uid e \<noteq> None \<and> True)
      | DELETE \<Rightarrow> Some (\<lambda>e r. auth_uid e \<noteq> None \<and> True))"

definition products_policy :: "command \<Rightarrow> (env \<Rightarrow> product \<Rightarrow> bool) option" where
  "products_policy c =
     (case c of
        SELECT \<Rightarrow> Some (\<lambda>e r. auth_uid e \<noteq> None \<and> True)
      | INSERT \<Rightarrow> Some (\<lambda>e r. auth_uid e \<noteq> None \<and> True)
      | UPDATE \<Rightarrow> Some (\<lambda>e r. auth_uid e \<noteq> None \<and> True)
      | DELETE \<Rightarrow> Some (\<lambda>e r. auth_uid e \<noteq> None \<and> True))"

definition stock_movements_policy ::
  "command \<Rightarrow> (env \<Rightarrow> stock_movement \<Rightarrow> bool) option" where
  "stock_movements_policy c =
     (case c of
        SELECT \<Rightarrow> Some (\<lambda>e r. auth_uid e \<noteq> None \<and> True)
      | INSERT \<Rightarrow> Some (\<lambda>e r. auth_uid e \<noteq> None \<and> auth_uid e = Some (responsible_user_id r))
      | UPDATE \<Rightarrow> None
      | DELETE \<Rightarrow> None)"

definition permitted :: "(command \<Rightarrow> (env \<Rightarrow> 'r \<Rightarrow> bool) option) \<Rightarrow> command \<Rightarrow> env \<Rightarrow> 'r \<Rightarrow> bool" where
  "permitted policy c e r = (case policy c of None \<Rightarrow> False | Some cond \<Rightarrow> cond e r)"

section \<open>Triggers and constraints on products\<close>

text \<open>\<open>update_updated_at_column\<close>, the \<open>BEFORE UPDATE\<close> row trigger of \<open>products\<close>.\<close>

definition update_updated_at_column :: "env \<Rightarrow> product \<Rightarrow> product" where
  "update_updated_at_column e NEW = NEW\<lparr>updated_at := now e\<rparr>"

text \<open>The column types and the two \<open>CHECK\<close> constraints of \<open>products\<close>, tested on a row
  about to be stored.\<close>

definition products_constraints :: "product \<Rightarrow> pg_error + product" where
  "products_constraints r =
     (if \<not> fits_decimal_10_2 (current_quantity r) \<or> \<not> fits_decimal_10_2 (minimum_quantity r)
      then Inl Numeric_value_out_of_range
      else if \<not> (current_quantity r \<ge> 0) \<or> \<not> (minimum_quantity r \<ge> 0)
      then Inl Check_violation
      else Inr r)"

text \<open>
  \<open>UPDATE public.products SET ... WHERE ...\<close> run with the rights of the table owner (a
  \<open>SECURITY DEFINER\<close> function, a referential action): every row the \<open>WHERE\<close> clause selects
  gets the assignments, then the \<open>BEFORE UPDATE\<close> trigger, then the constraints; a row
  that fails aborts the statement.  Rows that are not selected stay as they are.
\<close>

fun update_products :: "env \<Rightarrow> (product \<Rightarrow> bool) \<Rightarrow> (product \<Rightarrow> product) \<Rightarrow> product list
    \<Rightarrow> pg_error + product list" where
  "update_products e wh st [] = Inr []"
| "update_products e wh st (r # rs) =
     (if wh r
      then and_then (products_constraints (update_updated_at_column e (st r)))
             (\<lambda>r'. and_then (update_products e wh st rs) (\<lambda>rs'. Inr (r' # rs')))
      else and_then (update_products e wh st rs) (\<lambda>rs'. Inr (r # rs')))"

section \<open>The stock ledger: inserting a movement\<close>

text \<open>\<open>update_product_quantity\<close>, the \<open>AFTER INSERT\<close> row trigger of \<open>stock_movements\<close>.
  \<open>GREATEST(a, 0)\<close> is \<open>max a 0\<close>.  A movement type that is neither \<open>entrada\<close> nor \<open>saida\<close>
  falls through the \<open>IF\<close> and updates nothing.\<close>

definition update_product_quantity :: "env \<Rightarrow> stock_movement \<Rightarrow> db \<Rightarrow> pg_error + db" where
  "update_product_quantity e NEW d =
     (if movement_type NEW = ''entrada'' then
        and_then
          (update_products e (\<lambda>r. product_pk r = product_id NEW)
             (\<lambda>r. r\<lparr>current_quantity := current_quantity r + quantity NEW, updated_at := now e\<rparr>)
             (products d))
          (\<lambda>rs. Inr (d\<lparr>products := rs\<rparr>))
      else if movement_type NEW = ''saida'' then
        and_then
          (update_products e (\<lambda>r. product_pk r = product_id NEW)
             (\<lambda>r. r\<lparr>current_quantity := max (current_quantity r - quantity NEW) 0,
                    updated_at := now e\<rparr>)
             (products d))
          (\<lambda>rs. Inr (d\<lparr>products := rs\<rparr>))
      else Inr d)"

text \<open>
  \<open>INSERT INTO stock_movements\<close> of the five columns the stock page supplies; \<open>id\<close> and
  \<open>created_at\<close> take their defaults, so those two fields of the argument are overwritten.
  The checks run in the order of the executor: the assignment of the quantity to its
  column type \<open>DECIMAL(10,2)\<close>, which refuses a value of more than eight digits before
  the point; the \<open>WITH CHECK\<close> policy; the \<open>CHECK\<close> constraints; the primary key; then
  the \<open>AFTER\<close> row triggers, which are the two foreign keys and
  \<open>on_stock_movement_created\<close>.
\<close>

definition insert_stock_movement :: "env \<Rightarrow> stock_movement \<Rightarrow> db \<Rightarrow> pg_error + db" where
  "insert_stock_movement e v d =
     (let NEW = v\<lparr>movement_pk := gen_random_uuid e, created_at := now e\<rparr> in
      if \<not> fits_decimal_10_2 (quantity NEW) then Inl Numeric_value_out_of_range
      else if \<not> permitted stock_movements_policy INSERT e NEW then Inl Insufficient_privilege
      else if \<not> (movement_type NEW \<in> {''entrada'', ''saida''}) \<or> \<not> (quantity NEW > 0)
      then Inl Check_violation
      else if movement_pk NEW \<in> set (map movement_pk (stock_movements d))
      then Inl Unique_violation
      else if product_id NEW \<notin> set (map product_pk (products d))
              \<or> responsible_user_id NEW \<notin> set (auth_users d)
      then Inl Foreign_key_violation
      else update_product_quantity e NEW (d\<lparr>stock_movements := stock_movements d @ [NEW]\<rparr>))"

text \<open>The first row of \<open>products\<close> with a given key (the key is the primary key).\<close>

definition find_product :: "uuid \<Rightarrow> db \<Rightarrow> product option" where
  "find_product pid d = find (\<lambda>r. product_pk r = pid) (products d)"

section \<open>The REST interface: JavaScript numbers into DECIMAL(10,2)\<close>

text \<open>
  A JavaScript number as the pages hand it to the client library.  A finite number stands
  for the rational value of its JSON text, which is what the database parses; \<open>NaN\<close> and
  the infinities are serialised as \<open>null\<close>.  \<open>le_zero\<close> is the comparison \<open>x <= 0\<close>.
\<close>

datatype number = NaN | Infinity | NegInfinity | Finite rat

definition le_zero :: "number \<Rightarrow> bool" where
  "le_zero x = (case x of NaN \<Rightarrow> False | Infinity \<Rightarrow> False | NegInfinity \<Rightarrow> True
                | Finite r \<Rightarrow> r \<le> 0)"

definition json_number :: "number \<Rightarrow> rat option" where
  "json_number x = (case x of Finite r \<Rightarrow> Some r | NaN \<Rightarrow> None | Infinity \<Rightarrow> None
                    | NegInfinity \<Rightarrow> None)"

text \<open>Assignment of a numeric value to a \<open>DECIMAL(10,2)\<close> column: rounded to two places,
  ties away from zero, and refused when more than eight digits remain before the point.\<close>

definition numeric_10_2 :: "rat \<Rightarrow> pg_error + decimal_10_2" where
  "numeric_10_2 r =
     (let v = (if 0 \<le> r then \<lfloor>r * 100 + 1 / 2\<rfloor> else - \<lfloor>- r * 100 + 1 / 2\<rfloor>)
      in if fits_decimal_10_2 v then Inr v else Inl Numeric_value_out_of_range)"

text \<open>A JSON number or \<open>null\<close> bound for a \<open>DECIMAL(10,2)\<close> column.\<close>

definition rest_numeric :: "number \<Rightarrow> pg_error + decimal_10_2 option" where
  "rest_numeric x =
     (case json_number x of None \<Rightarrow> Inr None
      | Some r \<Rightarrow> and_then (numeric_10_2 r) (\<lambda>v. Inr (Some v)))"

text \<open>
  The request \<open>supabase.from("stock_movements").insert([{...}])\<close> of the stock page.  With a
  \<open>null\<close> quantity the row still meets the policy first (which does not read the
  quantity) and then the \<open>NOT NULL\<close> constraint.
\<close>

definition rest_insert_stock_movement ::
  "env \<Rightarrow> uuid \<Rightarrow> string \<Rightarrow> number \<Rightarrow> string option \<Rightarrow> uuid \<Rightarrow> db \<Rightarrow> pg_error + db" where
  "rest_insert_stock_movement e pid mtype q nts uid d =
     (let v = \<lparr>movement_pk = gen_random_uuid e, product_id = pid, movement_type = mtype,
               quantity = 0, responsible_user_id = uid, movement_notes = nts,
               created_at = now e\<rparr>
      in and_then (rest_numeric q)
           (\<lambda>q'. case q' of
                    None \<Rightarrow> if \<not> permitted stock_movements_policy INSERT e v
                            then Inl Insufficient_privilege else Inl Not_null_violation
                  | Some qv \<Rightarrow> insert_stock_movement e (v\<lparr>quantity := qv\<rparr>) d))"

text \<open>
  \<open>UPDATE\<close> and \<open>DELETE\<close> requests on \<open>stock_movements\<close>, for any filter and any
  assignment: they reach the rows their policy admits.
\<close>

definition rest_update_stock_movements ::
  "env \<Rightarrow> (stock_movement \<Rightarrow> bool) \<Rightarrow> (stock_movement \<Rightarrow> stock_movement) \<Rightarrow> db \<Rightarrow> db" where
  "rest_update_stock_movements e wh st d =
     d\<lparr>stock_movements :=
         map (\<lambda>r. if permitted stock_movements_policy UPDATE e r \<and> wh r then st r else r)
           (stock_movements d)\<rparr>"

definition rest_delete_stock_movements :: "env \<Rightarrow> (stock_movement \<Rightarrow> bool) \<Rightarrow> db \<Rightarrow> db" where
  "rest_delete_stock_movements e wh d =
     d\<lparr>stock_movements :=
         filter (\<lambda>r. \<not> (permitted stock_movements_policy DELETE e r \<and> wh r))
           (stock_movements d)\<rparr>"

section \<open>Products and categories\<close>

text \<open>A foreign key to \<open>categories\<close>: a \<open>NULL\<close> reference is always allowed.\<close>

definition category_exists :: "uuid option \<Rightarrow> db \<Rightarrow> bool" where
  "category_exists c d = (case c of None \<Rightarrow> True | Some k \<Rightarrow> k \<in> set (map category_pk (categories d)))"

text \<open>\<open>INSERT INTO products\<close>; \<open>id\<close>, \<open>created_at\<close> and \<open>updated_at\<close> take their defaults.
  As for a movement, the two quantities are assigned to their column type first, then
  come the policy, the constraints, the primary key and the foreign key.\<close>

definition insert_product :: "env \<Rightarrow> product \<Rightarrow> db \<Rightarrow> pg_error + db" where
  "insert_product e v d =
     (let NEW = v\<lparr>product_pk := gen_random_uuid e, product_created_at := now e,
                  updated_at := now e\<rparr> in
      if \<not> fits_decimal_10_2 (current_quantity NEW) \<or> \<not> fits_decimal_10_2 (minimum_quantity NEW)
      then Inl Numeric_value_out_of_range
      else if \<not> permitted products_policy INSERT e NEW then Inl Insufficient_privilege
      else and_then (products_constraints NEW)
        (\<lambda>r. if product_pk r \<in> set (map product_pk (products d)) then Inl Unique_violation
             else if \<not> category_exists (category_id r) d then Inl Foreign_key_violation
             else Inr (d\<lparr>products := products d @ [r]\<rparr>)))"

definition rest_insert_product ::
  "env \<Rightarrow> string \<Rightarrow> string option \<Rightarrow> uuid option \<Rightarrow> string \<Rightarrow> number \<Rightarrow> number \<Rightarrow> db
    \<Rightarrow> pg_error + db" where
  "rest_insert_product e nm descr cat un minq curq d =
     (let v = \<lparr>product_pk = gen_random_uuid e, product_name = nm, product_description = descr,
               category_id = cat, unit = un, current_quantity = 0, minimum_quantity = 0,
               product_created_at = now e, updated_at = now e\<rparr>
      in and_then (rest_numeric minq) (\<lambda>m. and_then (rest_numeric curq) (\<lambda>c.
           case (m, c) of
             (Some mv, Some cv) \<Rightarrow>
               insert_product e (v\<lparr>current_quantity := cv, minimum_quantity := mv\<rparr>) d
           | _ \<Rightarrow> if \<not> permitted products_policy INSERT e v
                  then Inl Insufficient_privilege else Inl Not_null_violation)))"

text \<open>
  \<open>UPDATE products SET name, description, category_id, unit, minimum_quantity WHERE id\<close>,
  the request of the product page's edit branch: it reaches the rows the \<open>UPDATE\<close> policy
  admits, and an updated row must reference an existing category.
\<close>

definition update_product ::
  "env \<Rightarrow> uuid \<Rightarrow> string \<Rightarrow> string option \<Rightarrow> uuid option \<Rightarrow> string \<Rightarrow> decimal_10_2 \<Rightarrow> db
    \<Rightarrow> pg_error + db" where
  "update_product e pid nm descr cat un minq d =
     and_then
       (update_products e (\<lambda>r. permitted products_policy UPDATE e r \<and> product_pk r = pid)
          (\<lambda>r. r\<lparr>product_name := nm, product_description := descr, category_id := cat,
                 unit := un, minimum_quantity := minq\<rparr>)
          (products d))
       (\<lambda>rs. if list_ex (\<lambda>r. permitted products_policy UPDATE e r \<and> product_pk r = pid)
                   (products d) \<and> \<not> category_exists cat d
              then Inl Foreign_key_violation
              else Inr (d\<lparr>products := rs\<rparr>))"

definition rest_update_product ::
  "env \<Rightarrow> uuid \<Rightarrow> string \<Rightarrow> string option \<Rightarrow> uuid option \<Rightarrow> string \<Rightarrow> number \<Rightarrow> db
    \<Rightarrow> pg_error + db" where
  "rest_update_product e pid nm descr cat un minq d =
     and_then (rest_numeric minq)
       (\<lambda>m. case m of
               None \<Rightarrow> if list_ex (\<lambda>r. permitted products_policy UPDATE e r \<and> product_pk r = pid)
                            (products d)
                       then Inl Not_null_violation else Inr d
             | Some mv \<Rightarrow> update_product e pid nm descr cat un mv d)"

text \<open>
  \<open>DELETE FROM products WHERE id\<close>: the rows the \<open>DELETE\<close> policy admits go, and with a
  deleted product its movements (\<open>ON DELETE CASCADE\<close>, a referential action, not subject
  to the policies of \<open>stock_movements\<close>).
\<close>

definition delete_product :: "env \<Rightarrow> uuid \<Rightarrow> db \<Rightarrow> pg_error + db" where
  "delete_product e pid d =
     (if list_ex (\<lambda>r. permitted products_policy DELETE e r \<and> product_pk r = pid) (products d)
      then Inr (d\<lparr>products :=
                    filter (\<lambda>r. \<not> (permitted products_policy DELETE e r \<and> product_pk r = pid))
                      (products d),
                  stock_movements := filter (\<lambda>m. product_id m \<noteq> pid) (stock_movements d)\<rparr>)
      else Inr d)"

text \<open>
  \<open>DELETE FROM categories WHERE id\<close>: with a deleted category the referential action
  \<open>ON DELETE SET NULL\<close> runs \<open>UPDATE products SET category_id = NULL\<close> on the referencing
  rows, and that update fires the \<open>BEFORE UPDATE\<close> trigger of \<open>products\<close> like any other.
\<close>

definition delete_category :: "env \<Rightarrow> uuid \<Rightarrow> db \<Rightarrow> pg_error + db" where
  "delete_category e cid d =
     (if list_ex (\<lambda>c. permitted categories_policy DELETE e c \<and> category_pk c = cid) (categories d)
      then and_then
             (update_products e (\<lambda>r. category_id r = Some cid) (\<lambda>r. r\<lparr>category_id := None\<rparr>)
                (products d))
             (\<lambda>rs. Inr (d\<lparr>categories :=
                            filter (\<lambda>c. \<not> (permitted categories_policy DELETE e c
                                            \<and> category_pk c = cid)) (categories d),
                          products := rs\<rparr>))
      else Inr d)"

section \<open>The product page\<close>

text \<open>The toast a handler of a page shows.  The messages are the source's, without their
  diacritics.\<close>

datatype toast = Toast_error string | Toast_success string

record product_form =
  form_name :: string
  form_description :: string
  form_category_id :: string
  form_unit :: string
  form_minimum_quantity :: string

text \<open>
  \<open>handleSubmit\<close> of the product page: \<open>editingProduct\<close> is the id of the product being
  edited, or \<open>None\<close> when the form creates one.  The creating branch sends
  \<open>current_quantity: 0\<close>; the editing branch does not send the column.
\<close>

definition Products_handleSubmit ::
  "(string \<Rightarrow> number) \<Rightarrow> env \<Rightarrow> uuid option \<Rightarrow> product_form \<Rightarrow> db \<Rightarrow> toast \<times> db" where
  "Products_handleSubmit parseFloat e editingProduct formData d =
     (if form_name formData = [] \<or> form_unit formData = []
      then (Toast_error ''Preencha todos os campos obrigatorios'', d)
      else
        let nm = form_name formData;
            descr = (if form_description formData = [] then None
                     else Some (form_description formData));
            cat = (if form_category_id formData = [] then None
                   else Some (form_category_id formData));
            un = form_unit formData;
            minq = parseFloat (form_minimum_quantity formData)
        in case editingProduct of
             Some pid \<Rightarrow>
               (case rest_update_product e pid nm descr cat un minq d of
                  Inl error \<Rightarrow> (Toast_error ''Erro ao atualizar produto'', d)
                | Inr d' \<Rightarrow> (Toast_success ''Produto atualizado com sucesso!'', d'))
           | None \<Rightarrow>
               (case rest_insert_product e nm descr cat un minq (Finite 0) d of
                  Inl error \<Rightarrow> (Toast_error ''Erro ao criar produto'', d)
                | Inr d' \<Rightarrow> (Toast_success ''Produto criado com sucesso!'', d')))"

text \<open>\<open>handleDelete\<close> of the product page; \<open>confirmed\<close> is the answer to \<open>confirm(...)\<close>.\<close>

definition Products_handleDelete :: "bool \<Rightarrow> env \<Rightarrow> uuid \<Rightarrow> db \<Rightarrow> toast option \<times> db" where
  "Products_handleDelete confirmed e pid d =
     (if \<not> confirmed then (None, d)
      else case delete_product e pid d of
             Inl error \<Rightarrow> (Some (Toast_error ''Erro ao excluir produto''), d)
           | Inr d' \<Rightarrow> (Some (Toast_success ''Produto excluido com sucesso!''), d'))"

section \<open>The stock page (Stock.tsx)\<close>

text \<open>The form state of the page.\<close>

record stock_form =
  form_product_id :: string
  form_movement_type :: string
  form_quantity :: string
  form_notes :: string

text \<open>
  \<open>handleSubmit\<close> of the stock page.  \<open>parseFloat\<close> is the JavaScript built-in, taken as a
  parameter; \<open>userId\<close> is the page's state variable, set from the session when the page
  loaded, while \<open>auth_uid e\<close> is the identity the request is made with.
\<close>

definition Stock_handleSubmit ::
  "(string \<Rightarrow> number) \<Rightarrow> env \<Rightarrow> string \<Rightarrow> stock_form \<Rightarrow> db \<Rightarrow> toast \<times> db" where
  "Stock_handleSubmit parseFloat e userId formData d =
     (if form_product_id formData = [] \<or> form_quantity formData = []
      then (Toast_error ''Preencha todos os campos obrigatorios'', d)
      else
        let quantity = parseFloat (form_quantity formData) in
        if le_zero quantity
        then (Toast_error ''A quantidade deve ser maior que zero'', d)
        else
          case rest_insert_stock_movement e (form_product_id formData)
                 (form_movement_type formData) quantity
                 (if form_notes formData = [] then None else Some (form_notes formData))
                 userId d of
            Inl error \<Rightarrow> (Toast_error ''Erro ao registrar movimentacao'', d)
          | Inr d' \<Rightarrow> (Toast_success ''Movimentacao registrada com sucesso!'', d'))"

text \<open>The low-stock list of the stock page and the flag of its product table.  The page
  holds the two quantities as JavaScript numbers read from the JSON of the
  \<open>DECIMAL(10,2)\<close> columns; numbers of at most ten digits keep their order there, so
  \<open><=\<close> on them is \<open>\<le>\<close> on the hundredths.\<close>

definition getLowStockProducts :: "product list \<Rightarrow> product list" where
  "getLowStockProducts ps = filter (\<lambda>p. current_quantity p \<le> minimum_quantity p) ps"

definition isLowStock :: "product \<Rightarrow> bool" where
  "isLowStock p \<longleftrightarrow> current_quantity p \<le> minimum_quantity p"

text \<open>The \<open>SELECT\<close> requests, filtered by the policies.\<close>

definition select_stock_movements :: "env \<Rightarrow> db \<Rightarrow> stock_movement list" where
  "select_stock_movements e d = filter (permitted stock_movements_policy SELECT e) (stock_movements d)"

definition select_products :: "env \<Rightarrow> db \<Rightarrow> product list" where
  "select_products e d = filter (permitted products_policy SELECT e) (products d)"

definition select_profiles :: "env \<Rightarrow> db \<Rightarrow> profile list" where
  "select_profiles e d = filter (permitted profiles_policy SELECT e) (profiles d)"

text \<open>
  \<open>ORDER BY created_at DESC\<close>: the answer \<open>ys\<close> holds the rows \<open>xs\<close>, each as often as
  \<open>xs\<close> does, with \<open>created_at\<close> descending.  SQL leaves the order of rows with equal
  \<open>created_at\<close> open, and with it the choice among them at a \<open>LIMIT\<close>; so the ordering the
  database applies is a parameter \<open>order_by\<close> of the query below, and any function whose
  answer meets this condition may stand for it.  \<open>order_by_stable\<close> is one such function,
  which keeps rows with equal \<open>created_at\<close> in table order.
\<close>

definition ordered_by_created_at_desc :: "stock_movement list \<Rightarrow> stock_movement list \<Rightarrow> bool" where
  "ordered_by_created_at_desc xs ys \<longleftrightarrow>
     mset ys = mset xs \<and> sorted_wrt (\<lambda>a b. created_at a \<ge> created_at b) ys"

definition order_by_stable :: "stock_movement list \<Rightarrow> stock_movement list" where
  "order_by_stable xs = sort_key (\<lambda>m. - int (created_at m)) xs"

text \<open>
  \<open>loadMovements\<close>: the 50 first movements by \<open>created_at\<close> descending, each with the
  embedded \<open>products (name, unit)\<close>; then the profiles of the responsible users, read
  through the \<open>profiles\<close> policy; a \<open>Map\<close> from id to name (a later pair replaces an earlier
  one); and the name of the map or, when it is missing or empty, the placeholder (the
  source's word, without its diacritic).
\<close>

record movement_view =
  movement :: stock_movement
  embedded_products :: "(string \<times> string) option"
  responsible_name :: string

definition loadMovements ::
  "(stock_movement list \<Rightarrow> stock_movement list) \<Rightarrow> env \<Rightarrow> db \<Rightarrow> movement_view list" where
  "loadMovements order_by e d =
     (let movementsData = take 50 (order_by (select_stock_movements e d));
          userIds = remdups (map responsible_user_id movementsData);
          profs = filter (\<lambda>p. profile_id p \<in> set userIds) (select_profiles e d);
          profileMap = map_of (rev (map (\<lambda>p. (profile_id p, full_name p)) profs))
      in map (\<lambda>m.
           \<lparr>movement = m,
            embedded_products =
              map_option (\<lambda>r. (product_name r, unit r))
                (find (\<lambda>r. product_pk r = product_id m) (select_products e d)),
            responsible_name =
              (case profileMap (responsible_user_id m) of
                 None \<Rightarrow> ''Usuario''
               | Some n \<Rightarrow> if n = [] then ''Usuario'' else n)\<rparr>)
           movementsData)"

section \<open>The dashboard (Dashboard.tsx)\<close>

text \<open>The low-stock count of \<open>loadDashboardData\<close>: the rows are the pairs
  \<open>(current_quantity, minimum_quantity)\<close> the query selects, or \<open>null\<close>.\<close>

definition lowStockProducts :: "(decimal_10_2 \<times> decimal_10_2) list option \<Rightarrow> nat" where
  "lowStockProducts rows =
     (case rows of None \<Rightarrow> 0
      | Some ps \<Rightarrow> length (filter (\<lambda>(current_quantity, minimum_quantity).
                                    current_quantity \<le> minimum_quantity) ps))"

definition loadDashboardData_lowStockProducts :: "env \<Rightarrow> db \<Rightarrow> nat" where
  "loadDashboardData_lowStockProducts e d =
     lowStockProducts
       (Some (map (\<lambda>r. (current_quantity r, minimum_quantity r)) (select_products e d)))"

section \<open>Requests, one after the other\<close>

text \<open>
  The requests of the application: the handlers of the two pages and the deletion of a
  category; and, to cover the policies of the ledger, \<open>UPDATE\<close> and \<open>DELETE\<close> requests on
  \<open>stock_movements\<close> with any filter and any assignment.  A request that fails leaves
  the database as it was.
\<close>

datatype request =
    Stock_submit string stock_form
  | Products_submit "uuid option" product_form
  | Products_delete bool uuid
  | Categories_delete uuid
  | Movements_update "stock_movement \<Rightarrow> bool" "stock_movement \<Rightarrow> stock_movement"
  | Movements_delete "stock_movement \<Rightarrow> bool"

definition perform :: "(string \<Rightarrow> number) \<Rightarrow> env \<Rightarrow> request \<Rightarrow> db \<Rightarrow> db" where
  "perform parseFloat e rq d =
     (case rq of
        Stock_submit userId formData \<Rightarrow> snd (Stock_handleSubmit parseFloat e userId formData d)
      | Products_submit editingProduct formData \<Rightarrow>
          snd (Products_handleSubmit parseFloat e editingProduct formData d)
      | Products_delete confirmed pid \<Rightarrow> snd (Products_handleDelete confirmed e pid d)
      | Categories_delete cid \<Rightarrow> (case delete_category e cid d of Inl error \<Rightarrow> d | Inr d' \<Rightarrow> d')
      | Movements_update wh st \<Rightarrow> rest_update_stock_movements e wh st d
      | Movements_delete wh \<Rightarrow> rest_delete_stock_movements e wh d)"

fun run :: "(string \<Rightarrow> number) \<Rightarrow> (env \<times> request) list \<Rightarrow> db \<Rightarrow> db" where
  "run parseFloat [] d = d"
| "run parseFloat ((e, rq) # rqs) d = run parseFloat rqs (perform parseFloat e rq d)"

text \<open>
  A sequence of \<open>INSERT\<close>s into \<open>stock_movements\<close>, each a transaction of its own: the
  result is the database after the last one and the rows that were accepted, in order.
\<close>

fun insert_all :: "(env \<times> stock_movement) list \<Rightarrow> db \<Rightarrow> db \<times> stock_movement list" where
  "insert_all [] d = (d, [])"
| "insert_all ((e, v) # rest) d =
     (case insert_stock_movement e v d of
        Inl error \<Rightarrow> insert_all rest d
      | Inr d' \<Rightarrow>
          (case insert_all rest d' of
             (d'', accepted) \<Rightarrow>
               (d'', v\<lparr>movement_pk := gen_random_uuid e, created_at := now e\<rparr> # accepted)))"

section \<open>Consistency of a database, and the specification's formulas\<close>

text \<open>
  The part of the schema the results below rest on: the primary key of \<open>products\<close>, the
  column types and \<open>CHECK\<close> constraints of its rows, the foreign key from
  \<open>stock_movements.product_id\<close>, and the primary key of \<open>profiles\<close>.
\<close>

definition db_consistent :: "db \<Rightarrow> bool" where
  "db_consistent d \<longleftrightarrow>
     distinct (map product_pk (products d))
     \<and> list_all (\<lambda>r. products_constraints r = Inr r) (products d)
     \<and> list_all (\<lambda>m. product_id m \<in> set (map product_pk (products d))) (stock_movements d)
     \<and> distinct (map profile_id (profiles d))"

text \<open>
  The running balance in the specification's words (section 4.2, steps 2 and 3): an entry
  of quantity \<open>q\<close> takes the balance \<open>Q\<close> to \<open>Q + q\<close>, an exit takes it to \<open>max (Q - q) 0\<close>.
\<close>

definition spec_balance_step :: "decimal_10_2 \<Rightarrow> stock_movement \<Rightarrow> decimal_10_2" where
  "spec_balance_step Q m =
     (if movement_type m = ''entrada'' then Q + quantity m
      else if movement_type m = ''saida'' then max (Q - quantity m) 0
      else Q)"

text \<open>The low-stock classification in the specification's words (section 4.3).\<close>

definition spec_is_low_stock :: "product \<Rightarrow> bool" where
  "spec_is_low_stock p \<longleftrightarrow> current_quantity p \<le> minimum_quantity p"

section \<open>A small database to evaluate on\<close>

text \<open>
  Two users with their profiles, one category, two products and one movement; quantities
  are in hundredths, so \<open>500\<close> is 5.00.  \<open>example_env\<close> is a request of user \<open>u1\<close> at
  time 7.
\<close>

definition example_env :: env where
  "example_env = \<lparr>auth_uid = Some ''u1'', now = 7, gen_random_uuid = ''m1''\<rparr>"

definition example_product :: product where
  "example_product =
     \<lparr>product_pk = ''p1'', product_name = ''Martelo de Aco'', product_description = None,
      category_id = Some ''c1'', unit = ''unidade'', current_quantity = 500,
      minimum_quantity = 1000, product_created_at = 1, updated_at = 3\<rparr>"

definition example_product2 :: product where
  "example_product2 =
     \<lparr>product_pk = ''p2'', product_name = ''Jogo de Brocas'', product_description = None,
      category_id = None, unit = ''kit'', current_quantity = 3000, minimum_quantity = 1000,
      product_created_at = 1, updated_at = 1\<rparr>"

definition example_movement :: stock_movement where
  "example_movement =
     \<lparr>movement_pk = ''m0'', product_id = ''p1'', movement_type = ''entrada'', quantity = 500,
      responsible_user_id = ''u1'', movement_notes = None, created_at = 3\<rparr>"

definition example_db :: db where
  "example_db =
     \<lparr>auth_users = [''u1'', ''u2''],
      profiles = [\<lparr>profile_id = ''u1'', full_name = ''Ana'', profile_created_at = 0\<rparr>,
                  \<lparr>profile_id = ''u2'', full_name = ''Bia'', profile_created_at = 0\<rparr>],
      categories = [\<lparr>category_pk = ''c1'', category_name = ''Ferramentas Manuais'',
                     category_description = None, category_created_at = 0\<rparr>],
      products = [example_product, example_product2],
      stock_movements = [example_movement]\<rparr>"

text \<open>An exit of 8.00 from the product that holds 5.00, asked for by user \<open>u1\<close>.\<close>

definition example_exit :: stock_movement where
  "example_exit =
     \<lparr>movement_pk = [], product_id = ''p1'', movement_type = ''saida'', quantity = 800,
      responsible_user_id = ''u1'', movement_notes = None, created_at = 0\<rparr>"

text \<open>An entry of 15.00 into the same product, and three requests in a row: the exit and
  the entry by user \<open>u1\<close>, then the same entry asked for by user \<open>u2\<close> in the name of
  \<open>u1\<close>.\<close>

definition example_entry :: stock_movement where
  "example_entry =
     \<lparr>movement_pk = [], product_id = ''p1'', movement_type = ''entrada'', quantity = 1500,
      responsible_user_id = ''u1'', movement_notes = None, created_at = 0\<rparr>"

definition example_requests :: "(env \<times> stock_movement) list" where
  "example_requests =
     [(example_env, example_exit),
      (\<lparr>auth_uid = Some ''u1'', now = 9, gen_random_uuid = ''m2''\<rparr>, example_entry),
      (\<lparr>auth_uid = Some ''u2'', now = 10, gen_random_uuid = ''m3''\<rparr>, example_entry)]"

text \<open>A fragment of \<open>parseFloat\<close>, enough for the forms below, and a form of the stock page
  asking for an exit of -5.\<close>

definition example_parseFloat :: "string \<Rightarrow> number" where
  "example_parseFloat s =
     (if s = ''-5'' then Finite (- 5) else if s = ''0'' then Finite 0
      else if s = ''8'' then Finite 8 else if s = ''10'' then Finite 10
      else if s = ''100000000'' then Finite 100000000 else NaN)"

definition example_stock_form :: stock_form where
  "example_stock_form =
     \<lparr>form_product_id = ''p1'', form_movement_type = ''saida'', form_quantity = ''-5'',
      form_notes = []\<rparr>"

text \<open>An exit of 100000000.00, one hundredth above the largest \<open>DECIMAL(10,2)\<close> value, as
  a row and as the form of the stock page that asks for it.\<close>

definition example_large_exit :: stock_movement where
  "example_large_exit = example_exit\<lparr>quantity := 10000000000\<rparr>"

definition example_large_form :: stock_form where
  "example_large_form = example_stock_form\<lparr>form_quantity := ''100000000''\<rparr>"

text \<open>A ledger of 52 entries of 1.00 by user \<open>u1\<close>, with times 0, 1, 1, 2, 2, ... 25, 25,
  26 in table order, and the example database with this ledger.\<close>

definition example_ledger :: "stock_movement list" where
  "example_ledger =
     map (\<lambda>i. \<lparr>movement_pk = replicate (Suc i) (CHR ''m''), product_id = ''p1'',
                movement_type = ''entrada'', quantity = 100, responsible_user_id = ''u1'',
                movement_notes = None, created_at = (i + 1) div 2\<rparr>)
       [0..<52]"

definition example_busy_db :: db where
  "example_busy_db = example_db\<lparr>stock_movements := example_ledger\<rparr>"

text \<open>The same database seen by user \<open>u2\<close>, and the database after user \<open>u1\<close> has
  deleted the category at time 7.\<close>

definition example_viewer :: env where
  "example_viewer = \<lparr>auth_uid = Some ''u2'', now = 8, gen_random_uuid = ''m9''\<rparr>"

definition example_db_without_category :: db where
  "example_db_without_category =
     example_db\<lparr>categories := [],
                products := [example_product\<lparr>category_id := None, updated_at := 7\<rparr>,
                             example_product2]\<rparr>"

text \<open>Requests against the ledger: a \<open>DELETE\<close> and an \<open>UPDATE\<close> of every movement, then an
  exit of 8.00 entered on the stock page.\<close>

definition example_client_requests :: "(env \<times> request) list" where
  "example_client_requests =
     [(example_env, Movements_delete (\<lambda>m. True)),
      (example_env, Movements_update (\<lambda>m. True) (\<lambda>m. m\<lparr>quantity := 1\<rparr>)),
      (\<lparr>auth_uid = Some ''u1'', now = 9, gen_random_uuid = ''m2''\<rparr>,
       Stock_submit ''u1'' (example_stock_form\<lparr>form_quantity := ''8''\<rparr>))]"

text \<open>The registration of a product with minimum 10.00 on the product page, followed by
  an entry of 8.00 for it, and the row of that product afterwards.\<close>

definition example_product_form :: product_form where
  "example_product_form =
     \<lparr>form_name = ''Serrote'', form_description = [], form_category_id = ''c1'',
      form_unit = ''unidade'', form_minimum_quantity = ''10''\<rparr>"

definition example_registration :: "(env \<times> request) list" where
  "example_registration =
     [(\<lparr>auth_uid = Some ''u1'', now = 8, gen_random_uuid = ''p3''\<rparr>,
       Products_submit None example_product_form),
      (\<lparr>auth_uid = Some ''u1'', now = 9, gen_random_uuid = ''m2''\<rparr>,
       Stock_submit ''u1''
         \<lparr>form_product_id = ''p3'', form_movement_type = ''entrada'', form_quantity = ''8'',
          form_notes = []\<rparr>)]"

definition example_registered_product :: product where
  "example_registered_product =
     \<lparr>product_pk = ''p3'', product_name = ''Serrote'', product_description = None,
      category_id = Some ''c1'', unit = ''unidade'', current_quantity = 800,
      minimum_quantity = 1000, product_created_at = 8, updated_at = 9\<rparr>"

section \<open>Basic facts about the model\<close>

lemma and_then_Inr_iff: "and_then r f = Inr y \<longleftrightarrow> (\<exists>v. r = Inr v \<and> f v = Inr y)"
  by (cases r) (simp_all add: and_then_def)

lemma and_then_Inr [simp]: "and_then (Inr v) f = f v"
  by (simp add: and_then_def)

lemma and_then_Inl [simp]: "and_then (Inl err) f = Inl err"
  by (simp add: and_then_def)

lemma products_constraints_Inr: "products_constraints r = Inr r' \<Longrightarrow> r' = r"
  by (simp add: products_constraints_def split: if_splits)

lemma products_constraints_iff:
  "products_constraints r = Inr r \<longleftrightarrow>
     0 \<le> current_quantity r \<and> current_quantity r < 10 ^ 10
     \<and> 0 \<le> minimum_quantity r \<and> minimum_quantity r < 10 ^ 10"
  by (auto simp add: products_constraints_def fits_decimal_10_2_def)

lemma update_products_Inr:
  "update_products e wh st rs = Inr rs' \<Longrightarrow>
     rs' = map (\<lambda>r. if wh r then update_updated_at_column e (st r) else r) rs"
proof (induction rs arbitrary: rs')
  case Nil
  then show ?case by simp
next
  case (Cons r rs)
  then show ?case
    by (auto simp add: and_then_Inr_iff dest: products_constraints_Inr split: if_splits)
qed

lemma update_products_constraints:
  "update_products e wh st rs = Inr rs' \<Longrightarrow> r \<in> set rs \<Longrightarrow> wh r \<Longrightarrow>
     products_constraints (update_updated_at_column e (st r)) = Inr (update_updated_at_column e (st r))"
proof (induction rs arbitrary: rs')
  case Nil
  then show ?case by simp
next
  case (Cons a rs)
  then show ?case
    by (auto simp add: and_then_Inr_iff dest: products_constraints_Inr split: if_splits)
qed

lemma update_products_succeeds:
  "(\<And>r. r \<in> set rs \<Longrightarrow> wh r \<Longrightarrow>
      products_constraints (update_updated_at_column e (st r)) = Inr (update_updated_at_column e (st r)))
   \<Longrightarrow> update_products e wh st rs
        = Inr (map (\<lambda>r. if wh r then update_updated_at_column e (st r) else r) rs)"
  by (induction rs) simp_all


lemma find_map_key:
  assumes "\<And>r. key (f r) = key r"
  shows "find (\<lambda>r. key r = k) (map f rs) = map_option f (find (\<lambda>r. key r = k) rs)"
  using assms by (induction rs) simp_all

lemma db_consistent_product:
  "db_consistent d \<Longrightarrow> r \<in> set (products d) \<Longrightarrow> products_constraints r = Inr r"
  by (simp add: db_consistent_def list_all_iff)

lemma find_product_in: "find_product pid d = Some p \<Longrightarrow> p \<in> set (products d) \<and> product_pk p = pid"
  unfolding find_product_def by (auto simp: find_Some_iff)

lemma find_product_unique:
  "db_consistent d \<Longrightarrow> find_product pid d = Some p \<Longrightarrow> r \<in> set (products d) \<Longrightarrow>
     product_pk r = pid \<Longrightarrow> r = p"
  using find_product_in[of pid d p]
  by (auto simp: db_consistent_def distinct_map dest: inj_onD)

lemma saida_succeeds:
  assumes "db_consistent d" "find_product (product_id v) d = Some p"
    "movement_type v = ''saida''" "quantity v > current_quantity p"
  shows "update_product_quantity e v d =
           Inr (d\<lparr>products := map (\<lambda>r. if product_pk r = product_id v
                  then r\<lparr>current_quantity := 0, updated_at := now e\<rparr> else r) (products d)\<rparr>)"
proof -
  let ?st = "\<lambda>r. r\<lparr>current_quantity := max (current_quantity r - quantity v) 0, updated_at := now e\<rparr>"
  let ?wh = "\<lambda>r. product_pk r = product_id v"
  have sel: "r = p" if "r \<in> set (products d)" "?wh r" for r
    using find_product_unique[OF assms(1,2)] that by simp
  have ok: "products_constraints (update_updated_at_column e (?st r)) = Inr (update_updated_at_column e (?st r))"
    if "r \<in> set (products d)" "?wh r" for r
  proof -
    have "r = p" using sel that by simp
    moreover have "products_constraints p = Inr p"
      using db_consistent_product[OF assms(1)] find_product_in[OF assms(2)] by simp
    ultimately show ?thesis
      using assms(4) by (simp add: products_constraints_iff update_updated_at_column_def)
  qed
  have "update_products e ?wh ?st (products d)
          = Inr (map (\<lambda>r. if ?wh r then update_updated_at_column e (?st r) else r) (products d))"
    using ok by (rule update_products_succeeds)
  moreover have "map (\<lambda>r. if ?wh r then update_updated_at_column e (?st r) else r) (products d)
     = map (\<lambda>r. if product_pk r = product_id v
                  then r\<lparr>current_quantity := 0, updated_at := now e\<rparr> else r) (products d)"
    using sel assms(4) by (auto simp add: update_updated_at_column_def)
  ultimately show ?thesis
    using assms(3) by (simp add: update_product_quantity_def)
qed


lemma trigger_Inr:
  assumes "update_product_quantity e NEW d = Inr d'"
    and "movement_type NEW = ''entrada'' \<or> movement_type NEW = ''saida''"
  shows "d' = d\<lparr>products := map (\<lambda>r. if product_pk r = product_id NEW
                  then r\<lparr>current_quantity := spec_balance_step (current_quantity r) NEW,
                         updated_at := now e\<rparr> else r) (products d)\<rparr>"
  using assms
  by (auto simp add: update_product_quantity_def and_then_Inr_iff spec_balance_step_def
      update_updated_at_column_def dest!: update_products_Inr split: if_splits)

lemma insert_Inr:
  assumes "insert_stock_movement e v d = Inr d'"
  defines "NEW \<equiv> v\<lparr>movement_pk := gen_random_uuid e, created_at := now e\<rparr>"
  shows "auth_uid e = Some (responsible_user_id v)"
    and "movement_type v = ''entrada'' \<or> movement_type v = ''saida''"
    and "0 < quantity v"
    and "product_id v \<in> set (map product_pk (products d))"
    and "d' = d\<lparr>stock_movements := stock_movements d @ [NEW],
               products := map (\<lambda>r. if product_pk r = product_id v
                  then r\<lparr>current_quantity := spec_balance_step (current_quantity r) v,
                         updated_at := now e\<rparr> else r) (products d)\<rparr>"
    and "fits_decimal_10_2 (quantity v)"
proof -
  from assms(1) have chk: "permitted stock_movements_policy INSERT e NEW"
    "movement_type v = ''entrada'' \<or> movement_type v = ''saida''" "0 < quantity v"
    "product_id v \<in> set (map product_pk (products d))" "fits_decimal_10_2 (quantity v)"
    and tr: "update_product_quantity e NEW (d\<lparr>stock_movements := stock_movements d @ [NEW]\<rparr>) = Inr d'"
    unfolding insert_stock_movement_def NEW_def Let_def
    by (simp_all split: if_splits)
  show "auth_uid e = Some (responsible_user_id v)"
    using chk(1) by (simp add: permitted_def stock_movements_policy_def NEW_def)
  show "movement_type v = ''entrada'' \<or> movement_type v = ''saida''" by (rule chk(2))
  show "0 < quantity v" by (rule chk(3))
  show "product_id v \<in> set (map product_pk (products d))" by (rule chk(4))
  show "fits_decimal_10_2 (quantity v)" by (rule chk(5))
  have "movement_type NEW = ''entrada'' \<or> movement_type NEW = ''saida''"
    using chk(2) by (simp add: NEW_def)
  from trigger_Inr[OF tr this]
  show "d' = d\<lparr>stock_movements := stock_movements d @ [NEW],
               products := map (\<lambda>r. if product_pk r = product_id v
                  then r\<lparr>current_quantity := spec_balance_step (current_quantity r) v,
                         updated_at := now e\<rparr> else r) (products d)\<rparr>"
    by (simp add: NEW_def spec_balance_step_def)
qed

lemma db_consistent_append:
  "db_consistent d \<Longrightarrow> product_id m \<in> set (map product_pk (products d)) \<Longrightarrow>
     db_consistent (d\<lparr>stock_movements := stock_movements d @ [m]\<rparr>)"
  by (simp add: db_consistent_def)

lemma find_product_update:
  assumes "\<And>r. product_pk (f r) = product_pk r"
  shows "find_product k (d\<lparr>products := map f (products d)\<rparr>) = map_option f (find_product k d)"
  unfolding find_product_def using find_map_key[of product_pk f k "products d"] assms by simp

lemma find_product_append [simp]:
  "find_product k (d\<lparr>stock_movements := ms\<rparr>) = find_product k d"
  by (simp add: find_product_def)

lemma distinct_key_filter:
  "distinct (map key rs) \<Longrightarrow> length (filter (\<lambda>r. key r = k) rs) \<le> 1"
proof (induction rs)
  case Nil
  then show ?case by simp
next
  case (Cons r rs)
  have "filter (\<lambda>x. key x = key r) rs = []" 
    using Cons.prems by (force simp: filter_empty_conv image_iff)
  with Cons show ?case by auto
qed

lemma trigger_frame_rows:
  "update_product_quantity e NEW d = Inr d' \<Longrightarrow>
     list_all2 (\<lambda>r r'. (product_pk r \<noteq> product_id NEW \<longrightarrow> r' = r)
                  \<and> r' = r\<lparr>current_quantity := current_quantity r', updated_at := updated_at r'\<rparr>)
       (products d) (products d')"
  by (auto simp add: update_product_quantity_def and_then_Inr_iff list_all2_conv_all_nth
      update_updated_at_column_def dest!: update_products_Inr split: if_splits)

lemma update_products_keys:
  assumes "update_products e wh st rs = Inr rs'" and "\<And>r. product_pk (st r) = product_pk r"
  shows "map product_pk rs' = map product_pk rs"
  using update_products_Inr[OF assms(1)] assms(2)
  by (simp add: update_updated_at_column_def comp_def)

lemma update_products_valid:
  assumes "update_products e wh st rs = Inr rs'"
    and "list_all (\<lambda>r. products_constraints r = Inr r) rs"
  shows "list_all (\<lambda>r. products_constraints r = Inr r) rs'"
  using update_products_Inr[OF assms(1)] update_products_constraints[OF assms(1)] assms(2)
  by (auto simp add: list_all_iff)

lemma update_products_consistent:
  assumes "update_products e wh st (products d) = Inr rs'"
    and "\<And>r. product_pk (st r) = product_pk r" and "db_consistent d"
  shows "db_consistent (d\<lparr>products := rs'\<rparr>)"
proof -
  have k: "map product_pk rs' = map product_pk (products d)"
    by (rule update_products_keys[OF assms(1,2)])
  have v: "list_all (\<lambda>r. products_constraints r = Inr r) rs'"
    using update_products_valid[OF assms(1)] assms(3) by (simp add: db_consistent_def)
  show ?thesis
    using assms(3) v unfolding db_consistent_def by (simp add: k)
qed

lemma trigger_consistent:
  assumes "update_product_quantity e NEW d = Inr d'" and "db_consistent d"
  shows "db_consistent d'"
proof -
  consider (a) "movement_type NEW = ''entrada''"
    | (b) "movement_type NEW \<noteq> ''entrada''" "movement_type NEW = ''saida''"
    | (c) "movement_type NEW \<noteq> ''entrada''" "movement_type NEW \<noteq> ''saida''"
    by blast
  then show ?thesis
  proof cases
    case a
    with assms(1) obtain rs where
      "update_products e (\<lambda>r. product_pk r = product_id NEW)
         (\<lambda>r. r\<lparr>current_quantity := current_quantity r + quantity NEW, updated_at := now e\<rparr>)
         (products d) = Inr rs" and "d' = d\<lparr>products := rs\<rparr>"
      by (auto simp add: update_product_quantity_def and_then_Inr_iff)
    then show ?thesis
      using update_products_consistent[OF _ _ assms(2)] by simp
  next
    case b
    with assms(1) obtain rs where
      "update_products e (\<lambda>r. product_pk r = product_id NEW)
         (\<lambda>r. r\<lparr>current_quantity := max (current_quantity r - quantity NEW) 0,
                updated_at := now e\<rparr>)
         (products d) = Inr rs" and "d' = d\<lparr>products := rs\<rparr>"
      by (auto simp add: update_product_quantity_def and_then_Inr_iff)
    then show ?thesis
      using update_products_consistent[OF _ _ assms(2)] by simp
  next
    case c
    with assms show ?thesis by (simp add: update_product_quantity_def)
  qed
qed

lemma insert_consistent:
  assumes "insert_stock_movement e v d = Inr d'" and "db_consistent d"
  shows "db_consistent d'"
proof -
  let ?NEW = "v\<lparr>movement_pk := gen_random_uuid e, created_at := now e\<rparr>"
  from assms(1) have fk: "product_id ?NEW \<in> set (map product_pk (products d))"
    and tr: "update_product_quantity e ?NEW (d\<lparr>stock_movements := stock_movements d @ [?NEW]\<rparr>) = Inr d'"
    unfolding insert_stock_movement_def Let_def by (simp_all split: if_splits)
  show ?thesis
    using trigger_consistent[OF tr db_consistent_append[OF assms(2) fk]] .
qed


lemma insert_find_product:
  assumes "insert_stock_movement e v d = Inr d'" and "find_product pid d = Some p"
  shows "find_product pid d' =
           Some (if pid = product_id v
                 then p\<lparr>current_quantity := spec_balance_step (current_quantity p) v,
                        updated_at := now e\<rparr>
                 else p)"
proof -
  let ?f = "\<lambda>r. if product_pk r = product_id v
                  then r\<lparr>current_quantity := spec_balance_step (current_quantity r) v,
                         updated_at := now e\<rparr> else r"
  have key: "product_pk (?f r) = product_pk r" for r :: product by simp
  have "find_product pid d' = map_option ?f (find_product pid d)"
    using insert_Inr(5)[OF assms(1)]
      find_product_update[of ?f pid "d\<lparr>stock_movements := stock_movements d
            @ [v\<lparr>movement_pk := gen_random_uuid e, created_at := now e\<rparr>]\<rparr>", OF key]
    by simp
  then show ?thesis
    using assms(2) find_product_in[OF assms(2)] by auto
qed

lemma spec_balance_step_row [simp]:
  "spec_balance_step Q (v\<lparr>movement_pk := k, created_at := t\<rparr>) = spec_balance_step Q v"
  by (simp add: spec_balance_step_def)

lemmas example_defs = example_db_def example_product_def example_movement_def example_env_def
  example_exit_def example_entry_def example_requests_def example_parseFloat_def
  example_stock_form_def example_product2_def example_viewer_def
  example_db_without_category_def example_client_requests_def example_product_form_def
  example_registration_def example_registered_product_def example_large_exit_def
  example_large_form_def

lemma example_db_consistent: "db_consistent example_db"
  by (simp add: db_consistent_def example_defs products_constraints_def fits_decimal_10_2_def)

lemma example_requests_result: "\<exists>d'. insert_all example_requests example_db = (d', 
   [example_exit\<lparr>movement_pk := ''m1'', created_at := 7\<rparr>, example_entry\<lparr>movement_pk := ''m2'', created_at := 9\<rparr>])"
  by (simp add: example_defs insert_stock_movement_def update_product_quantity_def
      products_constraints_def fits_decimal_10_2_def update_updated_at_column_def
      permitted_def stock_movements_policy_def)

lemma numeric_10_2_nonpos:
  assumes "r \<le> 0" and "numeric_10_2 r = Inr v"
  shows "v \<le> 0"
proof (cases "r = 0")
  case True
  have "\<lfloor>(1::rat) / 2\<rfloor> = 0" by (rule floor_unique) simp_all
  with True assms(2) show ?thesis by (simp add: numeric_10_2_def Let_def split: if_splits)
next
  case False
  with assms(1) have neg: "r < 0" by simp
  then have "0 \<le> - r * 100 + 1 / 2" by simp
  then have "0 \<le> \<lfloor>- r * 100 + 1 / 2\<rfloor>" by (simp only: zero_le_floor)
  moreover have "v = - \<lfloor>- r * 100 + 1 / 2\<rfloor>"
    using assms(2) neg unfolding numeric_10_2_def Let_def
    by (simp only: if_False not_le[symmetric] split: if_splits) auto
  ultimately show ?thesis by linarith
qed

lemma insert_nonpositive:
  assumes "quantity v \<le> 0"
  shows "insert_stock_movement e v d
           = (if \<not> fits_decimal_10_2 (quantity v) then Inl Numeric_value_out_of_range
              else if auth_uid e = Some (responsible_user_id v) then Inl Check_violation
              else Inl Insufficient_privilege)"
  using assms
  by (simp add: insert_stock_movement_def Let_def permitted_def stock_movements_policy_def)

lemma rest_insert_nonpositive:
  assumes "le_zero q"
  shows "\<exists>err. rest_insert_stock_movement e pid mtype q nts uid d = Inl err"
proof (cases q)
  case (Finite r)
  with assms have r: "r \<le> 0" by (simp add: le_zero_def)
  show ?thesis
  proof (cases "numeric_10_2 r")
    case (Inl err)
    with Finite show ?thesis
      by (simp add: rest_insert_stock_movement_def rest_numeric_def json_number_def)
  next
    case (Inr qv)
    from numeric_10_2_nonpos[OF r Inr] have "qv \<le> 0" .
    with Finite Inr show ?thesis
      by (simp add: rest_insert_stock_movement_def rest_numeric_def json_number_def
          insert_nonpositive)
  qed
qed (use assms in \<open>simp_all add: rest_insert_stock_movement_def rest_numeric_def json_number_def le_zero_def\<close>)



lemma rest_update_stock_movements_denied: "rest_update_stock_movements e wh st d = d"
  by (simp add: rest_update_stock_movements_def permitted_def stock_movements_policy_def)

lemma rest_delete_stock_movements_denied: "rest_delete_stock_movements e wh d = d"
  by (simp add: rest_delete_stock_movements_def permitted_def stock_movements_policy_def)

lemma insert_product_movements:
  "insert_product e v d = Inr d' \<Longrightarrow> stock_movements d' = stock_movements d"
  by (auto simp add: insert_product_def Let_def and_then_Inr_iff split: if_splits)

lemma update_product_movements:
  "update_product e pid nm descr cat un minq d = Inr d' \<Longrightarrow> stock_movements d' = stock_movements d"
  by (auto simp add: update_product_def and_then_Inr_iff split: if_splits)

lemma delete_category_movements:
  "delete_category e cid d = Inr d' \<Longrightarrow> stock_movements d' = stock_movements d"
  by (auto simp add: delete_category_def and_then_Inr_iff split: if_splits)

lemma rest_insert_product_movements:
  "rest_insert_product e nm descr cat un minq curq d = Inr d' \<Longrightarrow>
     stock_movements d' = stock_movements d"
  by (auto simp add: rest_insert_product_def Let_def and_then_Inr_iff
      dest: insert_product_movements split: option.splits if_splits)

lemma rest_update_product_movements:
  "rest_update_product e pid nm descr cat un minq d = Inr d' \<Longrightarrow>
     stock_movements d' = stock_movements d"
  by (auto simp add: rest_update_product_def and_then_Inr_iff
      dest: update_product_movements split: option.splits if_splits)

lemma Products_handleSubmit_cases:
  "Products_handleSubmit parseFloat e editingProduct formData d = (t, d') \<Longrightarrow>
     d' = d
     \<or> (\<exists>nm descr cat un minq. editingProduct = None
           \<and> rest_insert_product e nm descr cat un minq (Finite 0) d = Inr d')
     \<or> (\<exists>pid nm descr cat un minq. editingProduct = Some pid
           \<and> rest_update_product e pid nm descr cat un minq d = Inr d')"
  unfolding Products_handleSubmit_def Let_def
  by (simp split: if_splits option.splits sum.splits) blast+

lemma Products_handleSubmit_movements:
  "stock_movements (snd (Products_handleSubmit parseFloat e editingProduct formData d))
     = stock_movements d"
proof -
  obtain t d' where r: "Products_handleSubmit parseFloat e editingProduct formData d = (t, d')"
    by (cases "Products_handleSubmit parseFloat e editingProduct formData d")
  from Products_handleSubmit_cases[OF r] have "stock_movements d' = stock_movements d"
    using rest_insert_product_movements rest_update_product_movements by blast
  with r show ?thesis by simp
qed

lemma rest_insert_stock_movement_movements:
  "rest_insert_stock_movement e pid mtype q nts uid d = Inr d' \<Longrightarrow>
     \<exists>new. stock_movements d' = stock_movements d @ new"
  by (auto simp add: rest_insert_stock_movement_def Let_def and_then_Inr_iff
      dest!: insert_Inr(5) split: option.splits if_splits)

lemma Stock_handleSubmit_movements:
  "\<exists>new. stock_movements (snd (Stock_handleSubmit parseFloat e userId formData d))
     = stock_movements d @ new"
  by (auto simp add: Stock_handleSubmit_def Let_def
      dest: rest_insert_stock_movement_movements split: sum.splits)

lemma Products_handleDelete_movements:
  "stock_movements (snd (Products_handleDelete confirmed e pid d)) = stock_movements d
   \<or> confirmed \<and> stock_movements (snd (Products_handleDelete confirmed e pid d))
        = filter (\<lambda>m. product_id m \<noteq> pid) (stock_movements d)"
  by (auto simp add: Products_handleDelete_def delete_product_def split: sum.splits)

lemma perform_movements:
  "(\<exists>new. stock_movements (perform parseFloat e rq d) = stock_movements d @ new)
   \<or> (\<exists>pid. rq = Products_delete True pid
         \<and> stock_movements (perform parseFloat e rq d)
             = filter (\<lambda>m. product_id m \<noteq> pid) (stock_movements d))"
proof (cases rq)
  case (Stock_submit userId formData)
  then show ?thesis using Stock_handleSubmit_movements[of parseFloat e userId formData d]
    by (simp add: perform_def)
next
  case (Products_submit editingProduct formData)
  then show ?thesis using Products_handleSubmit_movements[of parseFloat e editingProduct formData d]
    by (simp add: perform_def)
next
  case (Products_delete confirmed pid)
  then show ?thesis using Products_handleDelete_movements[of confirmed e pid d]
    by (auto simp add: perform_def)
next
  case (Categories_delete cid)
  then show ?thesis
    by (auto simp add: perform_def dest: delete_category_movements split: sum.splits)
next
  case (Movements_update wh st)
  then show ?thesis by (simp add: perform_def rest_update_stock_movements_denied)
next
  case (Movements_delete wh)
  then show ?thesis by (simp add: perform_def rest_delete_stock_movements_denied)
qed

lemma run_keeps_movement:
  "m \<in> set (stock_movements d) \<Longrightarrow>
     m \<in> set (stock_movements (run parseFloat rqs d))
     \<or> (\<exists>e. (e, Products_delete True (product_id m)) \<in> set rqs)"
proof (induction rqs arbitrary: d)
  case Nil
  then show ?case by simp
next
  case (Cons a rqs)
  obtain e rq where a: "a = (e, rq)" by (cases a)
  show ?case
  proof (cases "m \<in> set (stock_movements (perform parseFloat e rq d))")
    case True
    from Cons.IH[OF True] a show ?thesis by auto
  next
    case False
    with perform_movements[of parseFloat e rq d] Cons.prems
    have "rq = Products_delete True (product_id m)" by auto
    with a show ?thesis by auto
  qed
qed

lemma run_appends:
  "(\<forall>e pid. (e, Products_delete True pid) \<notin> set rqs) \<Longrightarrow>
     \<exists>new. stock_movements (run parseFloat rqs d) = stock_movements d @ new"
proof (induction rqs arbitrary: d)
  case Nil
  then show ?case by simp
next
  case (Cons a rqs)
  obtain e rq where a: "a = (e, rq)" by (cases a)
  from Cons.prems a have nd: "\<And>pid. rq \<noteq> Products_delete True pid" by auto
  with perform_movements[of parseFloat e rq d]
  obtain new1 where n1: "stock_movements (perform parseFloat e rq d) = stock_movements d @ new1"
    by auto
  from Cons.prems have "\<forall>e pid. (e, Products_delete True pid) \<notin> set rqs" by auto
  from Cons.IH[OF this, of "perform parseFloat e rq d"] n1 a show ?case by auto
qed

lemma delete_category_result:
  assumes "db_consistent d" and "auth_uid e \<noteq> None"
    and "cid \<in> set (map category_pk (categories d))"
  shows "delete_category e cid d =
           Inr (d\<lparr>categories := filter (\<lambda>c. category_pk c \<noteq> cid) (categories d),
                 products := map (\<lambda>r. if category_id r = Some cid
                                       then r\<lparr>category_id := None, updated_at := now e\<rparr>
                                       else r) (products d)\<rparr>)"
proof -
  let ?wh = "\<lambda>r. category_id r = Some cid"
  let ?st = "\<lambda>r. r\<lparr>category_id := None\<rparr>"
  have sel: "list_ex (\<lambda>c. permitted categories_policy DELETE e c \<and> category_pk c = cid) (categories d)"
    using assms(2,3) by (auto simp add: list_ex_iff permitted_def categories_policy_def)
  have ok: "products_constraints (update_updated_at_column e (?st r))
              = Inr (update_updated_at_column e (?st r))"
    if "r \<in> set (products d)" "?wh r" for r
    using db_consistent_product[OF assms(1) that(1)]
    by (simp add: products_constraints_iff update_updated_at_column_def)
  have up: "update_products e ?wh ?st (products d)
          = Inr (map (\<lambda>r. if ?wh r then update_updated_at_column e (?st r) else r) (products d))"
    using ok by (rule update_products_succeeds)
  have flt: "filter (\<lambda>c. \<not> (permitted categories_policy DELETE e c \<and> category_pk c = cid)) (categories d)
           = filter (\<lambda>c. category_pk c \<noteq> cid) (categories d)"
    using assms(2) by (simp add: permitted_def categories_policy_def)
  show ?thesis
    unfolding delete_category_def using sel up flt
    by (simp add: update_updated_at_column_def)
qed

lemma update_products_same_quantity:
  assumes "update_products e wh st rs = Inr rs'"
    and "\<And>r. current_quantity (st r) = current_quantity r"
    and "\<And>r. product_pk (st r) = product_pk r"
    and "p' \<in> set rs'"
  shows "\<exists>p\<in>set rs. product_pk p = product_pk p' \<and> current_quantity p = current_quantity p'"
proof -
  from update_products_Inr[OF assms(1)] assms(4)
  obtain p where p: "p \<in> set rs" "p' = (if wh p then update_updated_at_column e (st p) else p)"
    by auto
  then show ?thesis using assms(2,3)
    by (auto simp add: update_updated_at_column_def intro!: bexI[of _ p])
qed

lemma rest_numeric_zero: "rest_numeric (Finite 0) = Inr (Some 0)"
proof -
  have "\<lfloor>(1::rat) / 2\<rfloor> = 0" by (rule floor_unique) simp_all
  then show ?thesis
    by (simp add: rest_numeric_def json_number_def numeric_10_2_def fits_decimal_10_2_def)
qed

lemma insert_product_Inr:
  assumes "insert_product e v d = Inr d'"
  shows "d' = d\<lparr>products := products d
                @ [v\<lparr>product_pk := gen_random_uuid e, product_created_at := now e,
                      updated_at := now e\<rparr>]\<rparr>"
  using assms
  by (auto simp add: insert_product_def Let_def and_then_Inr_iff
      dest!: products_constraints_Inr split: if_splits)

lemma rest_insert_product_zero:
  assumes "rest_insert_product e nm descr cat un minq (Finite 0) d = Inr d'"
  shows "\<exists>r. d' = d\<lparr>products := products d @ [r]\<rparr> \<and> product_pk r = gen_random_uuid e
             \<and> current_quantity r = 0"
proof -
  from assms obtain m where m: "rest_numeric minq = Inr m"
    by (auto simp add: rest_insert_product_def Let_def and_then_Inr_iff)
  with assms obtain mv where mv: "m = Some mv"
    by (cases m) (auto simp add: rest_insert_product_def Let_def rest_numeric_zero split: if_splits)
  let ?v = "\<lparr>product_pk = gen_random_uuid e, product_name = nm, product_description = descr,
               category_id = cat, unit = un, current_quantity = 0, minimum_quantity = mv,
               product_created_at = now e, updated_at = now e\<rparr>"
  from assms m mv have "insert_product e ?v d = Inr d'"
    by (simp add: rest_insert_product_def Let_def rest_numeric_zero)
  from insert_product_Inr[OF this] show ?thesis
    by (intro exI[of _ ?v]) simp
qed

lemma rest_update_product_rows:
  assumes "rest_update_product e pid nm descr cat un minq d = Inr d'" and "p' \<in> set (products d')"
  shows "\<exists>p\<in>set (products d). product_pk p = product_pk p' \<and> current_quantity p = current_quantity p'"
proof -
  from assms(1) obtain m where m: "rest_numeric minq = Inr m"
    by (auto simp add: rest_update_product_def and_then_Inr_iff)
  show ?thesis
  proof (cases m)
    case None
    with assms(1) m have "d' = d"
      by (simp add: rest_update_product_def split: if_splits)
    with assms(2) show ?thesis by auto
  next
    case (Some mv)
    with assms(1) m have "update_product e pid nm descr cat un mv d = Inr d'"
      by (simp add: rest_update_product_def)
    then obtain rs where rs: "update_products e
          (\<lambda>r. permitted products_policy UPDATE e r \<and> product_pk r = pid)
          (\<lambda>r. r\<lparr>product_name := nm, product_description := descr, category_id := cat,
                 unit := un, minimum_quantity := mv\<rparr>)
          (products d) = Inr rs" and d': "d' = d\<lparr>products := rs\<rparr>"
      by (auto simp add: update_product_def and_then_Inr_iff split: if_splits)
    from assms(2) d' have "p' \<in> set rs" by simp
    from update_products_same_quantity[OF rs _ _ this] show ?thesis by simp
  qed
qed

lemma delete_category_rows:
  assumes "delete_category e cid d = Inr d'" and "p' \<in> set (products d')"
  shows "\<exists>p\<in>set (products d). product_pk p = product_pk p' \<and> current_quantity p = current_quantity p'"
proof (cases "list_ex (\<lambda>c. permitted categories_policy DELETE e c \<and> category_pk c = cid) (categories d)")
  case True
  with assms(1) obtain rs where rs: "update_products e (\<lambda>r. category_id r = Some cid)
        (\<lambda>r. r\<lparr>category_id := None\<rparr>) (products d) = Inr rs" and d': "products d' = rs"
    by (auto simp add: delete_category_def and_then_Inr_iff)
  from assms(2) d' have "p' \<in> set rs" by simp
  from update_products_same_quantity[OF rs _ _ this] show ?thesis by simp
next
  case False
  with assms show ?thesis by (auto simp add: delete_category_def)
qed

lemma Products_handleDelete_rows:
  "p' \<in> set (products (snd (Products_handleDelete confirmed e pid d))) \<Longrightarrow> p' \<in> set (products d)"
  by (auto simp add: Products_handleDelete_def delete_product_def split: if_splits)

lemma Stock_handleSubmit_cases:
  "Stock_handleSubmit parseFloat e userId formData d = (t, d') \<Longrightarrow>
     d' = d
     \<or> (\<exists>q nts. insert_stock_movement e
            \<lparr>movement_pk = gen_random_uuid e, product_id = form_product_id formData,
             movement_type = form_movement_type formData, quantity = q,
             responsible_user_id = userId, movement_notes = nts, created_at = now e\<rparr> d = Inr d')"
proof -
  assume r: "Stock_handleSubmit parseFloat e userId formData d = (t, d')"
  show ?thesis
  proof (cases "d' = d")
    case True
    then show ?thesis by simp
  next
    case False
    let ?nts = "if form_notes formData = [] then None else Some (form_notes formData)"
    from r False have ri: "rest_insert_stock_movement e (form_product_id formData)
        (form_movement_type formData) (parseFloat (form_quantity formData)) ?nts userId d = Inr d'"
      unfolding Stock_handleSubmit_def Let_def
      by (auto split: if_splits sum.splits)
    then obtain q' where q': "rest_numeric (parseFloat (form_quantity formData)) = Inr q'"
      by (auto simp add: rest_insert_stock_movement_def Let_def and_then_Inr_iff)
    with ri obtain qv where "q' = Some qv"
      by (cases q') (auto simp add: rest_insert_stock_movement_def Let_def split: if_splits)
    with ri q' show ?thesis
      by (auto simp add: rest_insert_stock_movement_def Let_def)
  qed
qed


lemma insert_positive_rows:
  assumes "insert_stock_movement e v d = Inr d'" and "p' \<in> set (products d')"
    and "0 < current_quantity p'"
  shows "(\<exists>p\<in>set (products d). product_pk p = product_pk p' \<and> 0 < current_quantity p)
       \<or> movement_type v = ''entrada'' \<and> product_id v = product_pk p'"
proof -
  let ?f = "\<lambda>r. if product_pk r = product_id v
                  then r\<lparr>current_quantity := spec_balance_step (current_quantity r) v,
                         updated_at := now e\<rparr> else r"
  from insert_Inr(5)[OF assms(1)] assms(2) obtain p where p: "p \<in> set (products d)" "p' = ?f p"
    by auto
  have q: "0 < quantity v" by (rule insert_Inr(3)[OF assms(1)])
  show ?thesis
  proof (cases "product_pk p = product_id v \<and> movement_type v = ''entrada''")
    case True
    with p show ?thesis by simp
  next
    case False
    with p assms(3) q have "product_pk p = product_pk p' \<and> 0 < current_quantity p"
      by (auto simp add: spec_balance_step_def split: if_splits)
    with p(1) show ?thesis by blast
  qed
qed

lemma perform_positive_rows:
  assumes "p' \<in> set (products (perform parseFloat e rq d))" and "0 < current_quantity p'"
  shows "(\<exists>p\<in>set (products d). product_pk p = product_pk p' \<and> 0 < current_quantity p)
       \<or> (\<exists>userId formData. rq = Stock_submit userId formData
             \<and> form_movement_type formData = ''entrada''
             \<and> form_product_id formData = product_pk p')"
proof (cases rq)
  case (Stock_submit userId formData)
  obtain t d' where r: "Stock_handleSubmit parseFloat e userId formData d = (t, d')"
    by (cases "Stock_handleSubmit parseFloat e userId formData d")
  with Stock_submit assms(1) have in': "p' \<in> set (products d')" by (simp add: perform_def)
  from Stock_handleSubmit_cases[OF r] show ?thesis
  proof
    assume "d' = d"
    with in' assms(2) show ?thesis by auto
  next
    assume "\<exists>q nts. insert_stock_movement e
            \<lparr>movement_pk = gen_random_uuid e, product_id = form_product_id formData,
             movement_type = form_movement_type formData, quantity = q,
             responsible_user_id = userId, movement_notes = nts, created_at = now e\<rparr> d = Inr d'"
    then obtain q nts where "insert_stock_movement e
            \<lparr>movement_pk = gen_random_uuid e, product_id = form_product_id formData,
             movement_type = form_movement_type formData, quantity = q,
             responsible_user_id = userId, movement_notes = nts, created_at = now e\<rparr> d = Inr d'"
      by blast
    from insert_positive_rows[OF this in' assms(2)] Stock_submit show ?thesis by simp
  qed
next
  case (Products_submit editingProduct formData)
  obtain t d' where r: "Products_handleSubmit parseFloat e editingProduct formData d = (t, d')"
    by (cases "Products_handleSubmit parseFloat e editingProduct formData d")
  with Products_submit assms(1) have in': "p' \<in> set (products d')" by (simp add: perform_def)
  from Products_handleSubmit_cases[OF r]
  have "\<exists>p\<in>set (products d). product_pk p = product_pk p' \<and> current_quantity p = current_quantity p'"
  proof (elim disjE exE conjE)
    assume "d' = d"
    with in' show ?thesis by auto
  next
    fix nm descr cat un minq
    assume "rest_insert_product e nm descr cat un minq (Finite 0) d = Inr d'"
    from rest_insert_product_zero[OF this] in' assms(2) show ?thesis by auto
  next
    fix pid nm descr cat un minq
    assume "rest_update_product e pid nm descr cat un minq d = Inr d'"
    from rest_update_product_rows[OF this in'] show ?thesis .
  qed
  with assms(2) show ?thesis by auto
next
  case (Products_delete confirmed pid)
  with assms(1) have "p' \<in> set (products d)"
    using Products_handleDelete_rows[of p' confirmed e pid d] by (simp add: perform_def)
  with assms(2) show ?thesis by auto
next
  case (Categories_delete cid)
  show ?thesis
  proof (cases "delete_category e cid d")
    case (Inl err)
    with Categories_delete assms show ?thesis by (auto simp add: perform_def)
  next
    case (Inr d')
    with Categories_delete assms(1) have "p' \<in> set (products d')" by (simp add: perform_def)
    from delete_category_rows[OF Inr this] assms(2) show ?thesis by auto
  qed
next
  case (Movements_update wh st)
  with assms show ?thesis by (auto simp add: perform_def rest_update_stock_movements_denied)
next
  case (Movements_delete wh)
  with assms show ?thesis by (auto simp add: perform_def rest_delete_stock_movements_denied)
qed

lemma run_positive_rows:
  "p' \<in> set (products (run parseFloat rqs d)) \<Longrightarrow> 0 < current_quantity p' \<Longrightarrow>
     (\<exists>p\<in>set (products d). product_pk p = product_pk p' \<and> 0 < current_quantity p)
     \<or> (\<exists>e userId formData. (e, Stock_submit userId formData) \<in> set rqs
           \<and> form_movement_type formData = ''entrada''
           \<and> form_product_id formData = product_pk p')"
proof (induction rqs arbitrary: d)
  case Nil
  then show ?case by auto
next
  case (Cons a rqs)
  obtain e rq where a: "a = (e, rq)" by (cases a)
  from Cons.prems(1) a have in': "p' \<in> set (products (run parseFloat rqs (perform parseFloat e rq d)))"
    by simp
  from Cons.IH[OF in' Cons.prems(2)] show ?case
  proof
    assume "\<exists>p\<in>set (products (perform parseFloat e rq d)).
              product_pk p = product_pk p' \<and> 0 < current_quantity p"
    then obtain p1 where p1: "p1 \<in> set (products (perform parseFloat e rq d))"
      "product_pk p1 = product_pk p'" "0 < current_quantity p1" by blast
    from perform_positive_rows[OF p1(1,3)] p1(2) a show ?thesis by auto
  next
    assume "\<exists>e userId formData. (e, Stock_submit userId formData) \<in> set rqs
           \<and> form_movement_type formData = ''entrada''
           \<and> form_product_id formData = product_pk p'"
    then show ?thesis by auto
  qed
qed

lemma find_filter_conv:
  "find P xs = (case filter P xs of [] \<Rightarrow> None | x # _ \<Rightarrow> Some x)"
  by (induction xs) simp_all

lemma select_stock_movements_conv:
  "select_stock_movements e d = (if auth_uid e = None then [] else stock_movements d)"
  by (simp add: select_stock_movements_def permitted_def stock_movements_policy_def)

lemma select_products_conv:
  "select_products e d = (if auth_uid e = None then [] else products d)"
  by (simp add: select_products_def permitted_def products_policy_def)

lemma select_profiles_conv:
  "select_profiles e d = filter (\<lambda>p. auth_uid e = Some (profile_id p)) (profiles d)"
proof -
  have "permitted profiles_policy SELECT e = (\<lambda>p. auth_uid e = Some (profile_id p))"
    by (simp add: fun_eq_iff permitted_def profiles_policy_def)
  then show ?thesis by (simp add: select_profiles_def)
qed

lemma own_profile_lookup:
  assumes "distinct (map profile_id ps)" and "uid \<in> U"
  shows "map_of (rev (map (\<lambda>p. (profile_id p, full_name p))
           (filter (\<lambda>p. profile_id p \<in> U) (filter (\<lambda>p. caller = Some (profile_id p)) ps)))) uid
         = (if caller = Some uid
            then map_option full_name (find (\<lambda>p. profile_id p = uid) ps) else None)"
proof (cases "caller = Some uid")
  case False
  have "uid \<notin> fst ` set (rev (map (\<lambda>p. (profile_id p, full_name p))
           (filter (\<lambda>p. profile_id p \<in> U) (filter (\<lambda>p. caller = Some (profile_id p)) ps))))"
    using False by auto
  then show ?thesis using False by (simp only: map_of_eq_None_iff[symmetric] if_False)
next
  case True
  have eq: "filter (\<lambda>p. profile_id p \<in> U) (filter (\<lambda>p. caller = Some (profile_id p)) ps)
          = filter (\<lambda>p. profile_id p = uid) ps"
    using True assms(2) by (auto intro: filter_cong)
  have "length (filter (\<lambda>p. profile_id p = uid) ps) \<le> 1"
    by (rule distinct_key_filter[OF assms(1)])
  then consider "filter (\<lambda>p. profile_id p = uid) ps = []"
    | p where "filter (\<lambda>p. profile_id p = uid) ps = [p]"
    by (cases "filter (\<lambda>p. profile_id p = uid) ps") (auto simp: length_Suc_conv)
  then show ?thesis
  proof cases
    case 1
    with True eq show ?thesis by (simp add: find_filter_conv)
  next
    case 2
    then have "p \<in> set (filter (\<lambda>p. profile_id p = uid) ps)" by simp
    then have "profile_id p = uid" by simp
    with 2 True eq show ?thesis by (simp add: find_filter_conv)
  qed
qed


lemma order_by_stable_ordered: "ordered_by_created_at_desc xs (order_by_stable xs)"
proof -
  let ?k = "\<lambda>m. - int (created_at m)"
  have "sorted (map ?k (sort_key ?k xs))" by (rule sorted_sort_key)
  then have "sorted_wrt (\<lambda>a b. ?k a \<le> ?k b) (sort_key ?k xs)" by (simp only: sorted_map)
  then have "sorted_wrt (\<lambda>a b. created_at a \<ge> created_at b) (sort_key ?k xs)" by simp
  then show ?thesis by (simp add: ordered_by_created_at_desc_def order_by_stable_def)
qed

lemma ordered_take_drop:
  assumes "ordered_by_created_at_desc xs ys"
  shows "mset (take n ys) + mset (drop n ys) = mset xs"
    and "\<forall>a\<in>set (take n ys). \<forall>b\<in>set (drop n ys). created_at b \<le> created_at a"
    and "sorted_wrt (\<lambda>a b. created_at a \<ge> created_at b) (take n ys)"
    and "length ys = length xs" and "set ys = set xs"
proof -
  from assms have m: "mset ys = mset xs"
    and s: "sorted_wrt (\<lambda>a b. created_at a \<ge> created_at b) ys"
    by (simp_all add: ordered_by_created_at_desc_def)
  have "mset (take n ys) + mset (drop n ys) = mset (take n ys @ drop n ys)"
    by (simp only: mset_append)
  also have "\<dots> = mset ys" by (simp only: append_take_drop_id)
  finally show "mset (take n ys) + mset (drop n ys) = mset xs" using m by simp
  from s have "sorted_wrt (\<lambda>a b. created_at a \<ge> created_at b) (take n ys @ drop n ys)"
    by (simp only: append_take_drop_id)
  then show "\<forall>a\<in>set (take n ys). \<forall>b\<in>set (drop n ys). created_at b \<le> created_at a"
    by (simp add: sorted_wrt_append del: append_take_drop_id)
  from s show "sorted_wrt (\<lambda>a b. created_at a \<ge> created_at b) (take n ys)"
    by (rule sorted_wrt_take)
  from m show "length ys = length xs" by (rule mset_eq_length)
  from m show "set ys = set xs" by (rule mset_eq_setD)
qed

lemma loadMovements_rows:
  "map movement (loadMovements order_by e d) = take 50 (order_by (select_stock_movements e d))"
  by (simp add: loadMovements_def Let_def comp_def)

lemma loadMovements_embedded:
  assumes "v \<in> set (loadMovements order_by e d)"
  shows "embedded_products v
           = map_option (\<lambda>r. (product_name r, unit r))
               (find (\<lambda>r. product_pk r = product_id (movement v)) (select_products e d))"
  using assms by (auto simp add: loadMovements_def Let_def)

lemma loadMovements_name:
  assumes "v \<in> set (loadMovements order_by e d)" and "distinct (map profile_id (profiles d))"
  shows "responsible_name v =
           (case (if auth_uid e = Some (responsible_user_id (movement v))
                  then map_option full_name
                         (find (\<lambda>p. profile_id p = responsible_user_id (movement v)) (profiles d))
                  else None) of
              None \<Rightarrow> ''Usuario''
            | Some n \<Rightarrow> if n = [] then ''Usuario'' else n)"
proof -
  let ?md = "take 50 (order_by (select_stock_movements e d))"
  let ?U = "set (remdups (map responsible_user_id ?md))"
  let ?pm = "map_of (rev (map (\<lambda>p. (profile_id p, full_name p))
               (filter (\<lambda>p. profile_id p \<in> ?U) (select_profiles e d))))"
  from assms(1) obtain m where m: "m \<in> set ?md" "movement v = m"
    and n: "responsible_name v = (case ?pm (responsible_user_id m) of
                 None \<Rightarrow> ''Usuario'' | Some n \<Rightarrow> if n = [] then ''Usuario'' else n)"
    by (auto simp add: loadMovements_def Let_def)
  have "responsible_user_id m \<in> ?U" using m(1) by simp
  from own_profile_lookup[OF assms(2) this, of "auth_uid e"]
  have "?pm (responsible_user_id m)
          = (if auth_uid e = Some (responsible_user_id m)
             then map_option full_name (find (\<lambda>p. profile_id p = responsible_user_id m) (profiles d))
             else None)"
    by (simp only: select_profiles_conv)
  with n m(2) show ?thesis by simp
qed

lemma example_busy_db_consistent: "db_consistent example_busy_db"
  by code_simp

lemma example_busy_listing:
  "map (\<lambda>v. created_at (movement v)) (loadMovements order_by_stable example_env example_busy_db)
     = rev (map (\<lambda>i. (i + 1) div 2) [2..<52])"
  by code_simp

lemma example_busy_names:
  "set (map responsible_name (loadMovements order_by_stable example_env example_busy_db))
     = {''Ana''}"
  by code_simp

lemma example_busy_length: "length (select_stock_movements example_env example_busy_db) = 52"
  by code_simp

lemma example_registration_result:
  "run example_parseFloat example_registration example_db
     = example_db
         \<lparr>products := [example_product, example_product2, example_registered_product],
          stock_movements :=
            [example_movement,
             \<lparr>movement_pk = ''m2'', product_id = ''p3'', movement_type = ''entrada'',
              quantity = 800, responsible_user_id = ''u1'', movement_notes = None,
              created_at = 9\<rparr>]\<rparr>"
  by code_simp

lemma example_registration_first:
  "Products_handleSubmit example_parseFloat
      \<lparr>auth_uid = Some ''u1'', now = 8, gen_random_uuid = ''p3''\<rparr> None example_product_form
      example_db
     = (Toast_success ''Produto criado com sucesso!'',
        example_db\<lparr>products := products example_db
           @ [example_registered_product\<lparr>current_quantity := 0, updated_at := 8\<rparr>]\<rparr>)"
  by code_simp

section \<open>The running balance\<close>

text \<open>
  Claim C2, amended.  Let a product of a consistent database hold the balance \<open>Q\<close>, and let
  an exit movement for it have a quantity above \<open>Q\<close>.  Then the trigger
  \<open>update_product_quantity\<close> does not raise and leaves the product with the balance 0.
  And the \<open>INSERT\<close> itself is accepted, the movement is appended to the ledger and the
  balance is 0, whenever the quantity fits the column type \<open>DECIMAL(10,2)\<close>, that is, it
  is at most 99999999.99, and the row passes the checks that do not concern the amount:
  the caller is the responsible user, that user exists, and the generated key is fresh.
\<close>

theorem exit_beyond_balance_clamps_to_zero:
  assumes "db_consistent d" and "find_product (product_id v) d = Some p"
    and "movement_type v = ''saida''" and "quantity v > current_quantity p"
  shows "(\<exists>d'. update_product_quantity e v d = Inr d'
            \<and> map_option current_quantity (find_product (product_id v) d') = Some 0)
       \<and> (fits_decimal_10_2 (quantity v)
            \<and> auth_uid e = Some (responsible_user_id v)
            \<and> responsible_user_id v \<in> set (auth_users d)
            \<and> gen_random_uuid e \<notin> set (map movement_pk (stock_movements d))
          \<longrightarrow> (\<exists>d'. insert_stock_movement e v d = Inr d'
                 \<and> stock_movements d' = stock_movements d
                      @ [v\<lparr>movement_pk := gen_random_uuid e, created_at := now e\<rparr>]
                 \<and> map_option current_quantity (find_product (product_id v) d') = Some 0))"
proof (intro conjI impI)
  let ?f = "\<lambda>r. if product_pk r = product_id v
                  then r\<lparr>current_quantity := 0, updated_at := now e\<rparr> else r"
  have key: "product_pk (?f r) = product_pk r" for r :: product by simp
  have found: "map_option current_quantity (map_option ?f (find_product (product_id v) d)) = Some 0"
    using assms(2) find_product_in[OF assms(2)] by simp
  show "\<exists>d'. update_product_quantity e v d = Inr d'
            \<and> map_option current_quantity (find_product (product_id v) d') = Some 0"
    using saida_succeeds[OF assms, of e] find_product_update[of ?f "product_id v" d, OF key] found
    by simp
  assume a: "fits_decimal_10_2 (quantity v)
            \<and> auth_uid e = Some (responsible_user_id v)
            \<and> responsible_user_id v \<in> set (auth_users d)
            \<and> gen_random_uuid e \<notin> set (map movement_pk (stock_movements d))"
  let ?NEW = "v\<lparr>movement_pk := gen_random_uuid e, created_at := now e\<rparr>"
  let ?d1 = "d\<lparr>stock_movements := stock_movements d @ [?NEW]\<rparr>"
  have "products_constraints p = Inr p"
    using db_consistent_product[OF assms(1)] find_product_in[OF assms(2)] by simp
  then have pos: "0 < quantity v"
    using assms(4) by (simp add: products_constraints_iff)
  have fk: "product_id v \<in> set (map product_pk (products d))"
    using find_product_in[OF assms(2)] by force
  have c1: "db_consistent ?d1"
    using db_consistent_append[OF assms(1), of ?NEW] fk by simp
  have tr: "update_product_quantity e ?NEW ?d1 = Inr (?d1\<lparr>products := map ?f (products ?d1)\<rparr>)"
    using saida_succeeds[OF c1, of ?NEW p e] assms(2,3,4) by simp
  have ins: "insert_stock_movement e v d = Inr (?d1\<lparr>products := map ?f (products ?d1)\<rparr>)"
    unfolding insert_stock_movement_def Let_def
    using a assms(3) pos fk tr
    by (simp add: permitted_def stock_movements_policy_def)
  have "find_product (product_id v) (?d1\<lparr>products := map ?f (products ?d1)\<rparr>)
          = map_option ?f (find_product (product_id v) ?d1)"
    using find_product_update[of ?f "product_id v" ?d1, OF key] by simp
  then show "\<exists>d'. insert_stock_movement e v d = Inr d'
                 \<and> stock_movements d' = stock_movements d
                      @ [v\<lparr>movement_pk := gen_random_uuid e, created_at := now e\<rparr>]
                 \<and> map_option current_quantity (find_product (product_id v) d') = Some 0"
    using ins found by simp
qed


theorem exit_beyond_balance_clamps_to_zero_witness:
  "db_consistent example_db
   \<and> find_product (product_id example_exit) example_db = Some example_product
   \<and> movement_type example_exit = ''saida''
   \<and> quantity example_exit > current_quantity example_product
   \<and> fits_decimal_10_2 (quantity example_exit)
   \<and> (\<exists>d'. update_product_quantity example_env example_exit example_db = Inr d'
          \<and> map_option current_quantity (find_product (product_id example_exit) d') = Some 0)
   \<and> (\<exists>d'. insert_stock_movement example_env example_exit example_db = Inr d'
          \<and> stock_movements d' = stock_movements example_db
               @ [example_exit\<lparr>movement_pk := gen_random_uuid example_env,
                               created_at := now example_env\<rparr>]
          \<and> map_option current_quantity (find_product (product_id example_exit) d') = Some 0)"
proof -
  have h1: "db_consistent example_db" by (rule example_db_consistent)
  have h2: "find_product (product_id example_exit) example_db = Some example_product"
    by (simp add: find_product_def example_db_def example_product_def example_exit_def)
  have h3: "movement_type example_exit = ''saida''"
    by (simp add: example_exit_def)
  have h4: "quantity example_exit > current_quantity example_product"
    by (simp add: example_exit_def example_product_def)
  have a: "fits_decimal_10_2 (quantity example_exit)
            \<and> auth_uid example_env = Some (responsible_user_id example_exit)
            \<and> responsible_user_id example_exit \<in> set (auth_users example_db)
            \<and> gen_random_uuid example_env \<notin> set (map movement_pk (stock_movements example_db))"
    by (simp add: example_env_def example_exit_def example_db_def example_movement_def
        fits_decimal_10_2_def)
  from exit_beyond_balance_clamps_to_zero[OF h1 h2 h3 h4, of example_env] a h1 h2 h3 h4
  show ?thesis by blast
qed

text \<open>
  The claim as the specification words it, for every quantity above the balance, fails
  on the example: an exit of 100000000.00 from the product that holds 5.00, asked for by
  the responsible user, is refused, because the quantity does not fit the column type
  \<open>DECIMAL(10,2)\<close>; the stock page, whose form sets no maximum, shows its error toast
  and the database stays as it was.
\<close>

theorem exit_beyond_column_range_refused:
  "db_consistent example_db
   \<and> find_product (product_id example_large_exit) example_db = Some example_product
   \<and> movement_type example_large_exit = ''saida''
   \<and> quantity example_large_exit > current_quantity example_product
   \<and> auth_uid example_env = Some (responsible_user_id example_large_exit)
   \<and> responsible_user_id example_large_exit \<in> set (auth_users example_db)
   \<and> gen_random_uuid example_env \<notin> set (map movement_pk (stock_movements example_db))
   \<and> insert_stock_movement example_env example_large_exit example_db
       = Inl Numeric_value_out_of_range
   \<and> Stock_handleSubmit example_parseFloat example_env ''u1'' example_large_form example_db
       = (Toast_error ''Erro ao registrar movimentacao'', example_db)"
proof -
  have row: "find_product (product_id example_large_exit) example_db = Some example_product
   \<and> movement_type example_large_exit = ''saida''
   \<and> quantity example_large_exit > current_quantity example_product
   \<and> auth_uid example_env = Some (responsible_user_id example_large_exit)
   \<and> responsible_user_id example_large_exit \<in> set (auth_users example_db)
   \<and> gen_random_uuid example_env \<notin> set (map movement_pk (stock_movements example_db))
   \<and> insert_stock_movement example_env example_large_exit example_db
       = Inl Numeric_value_out_of_range"
    by (simp add: example_defs find_product_def insert_stock_movement_def fits_decimal_10_2_def)
  have page: "Stock_handleSubmit example_parseFloat example_env ''u1'' example_large_form example_db
       = (Toast_error ''Erro ao registrar movimentacao'', example_db)"
    by code_simp
  from row page example_db_consistent show ?thesis by simp
qed

text \<open>
  Claim C1.  Start from a consistent database in which a product holds the balance \<open>Q\<close>,
  and run any sequence of \<open>INSERT\<close>s into \<open>stock_movements\<close>.  The accepted rows are
  exactly what the ledger gains, in order, and the product's \<open>current_quantity\<close> is the
  left fold of the specification's step over the accepted rows of that product, starting
  from \<open>Q\<close>; it is never negative, and the database is consistent again, so no product
  has a negative quantity.
\<close>

theorem balance_is_clamped_fold:
  assumes "db_consistent d" and "find_product pid d = Some p"
    and "insert_all reqs d = (d', accepted)"
  shows "stock_movements d' = stock_movements d @ accepted
       \<and> (\<exists>p'. find_product pid d' = Some p'
             \<and> current_quantity p'
                 = foldl spec_balance_step (current_quantity p)
                     (filter (\<lambda>m. product_id m = pid) accepted)
             \<and> 0 \<le> current_quantity p')
       \<and> db_consistent d'"
  using assms
proof (induction reqs arbitrary: d p accepted)
  case Nil
  have "products_constraints p = Inr p"
    using db_consistent_product[OF Nil(1)] find_product_in[OF Nil(2)] by simp
  then have "0 \<le> current_quantity p" by (simp add: products_constraints_iff)
  with Nil show ?case by simp
next
  case (Cons rq reqs)
  obtain e v where rq: "rq = (e, v)" by (cases rq)
  show ?case
  proof (cases "insert_stock_movement e v d")
    case (Inl err)
    with Cons.prems(3) rq have "insert_all reqs d = (d', accepted)" by simp
    from Cons.IH[OF Cons.prems(1,2) this] show ?thesis .
  next
    case (Inr d1)
    let ?NEW = "v\<lparr>movement_pk := gen_random_uuid e, created_at := now e\<rparr>"
    obtain d2 acc where rest: "insert_all reqs d1 = (d2, acc)" by (cases "insert_all reqs d1")
    with Cons.prems(3) rq Inr have res: "d' = d2" "accepted = ?NEW # acc" by simp_all
    let ?p1 = "if pid = product_id v
                 then p\<lparr>current_quantity := spec_balance_step (current_quantity p) v,
                        updated_at := now e\<rparr>
                 else p"
    have c1: "db_consistent d1" by (rule insert_consistent[OF Inr Cons.prems(1)])
    have f1: "find_product pid d1 = Some ?p1" by (rule insert_find_product[OF Inr Cons.prems(2)])
    have m1: "stock_movements d1 = stock_movements d @ [?NEW]"
      using insert_Inr(5)[OF Inr] by simp
    have rest': "insert_all reqs d1 = (d', acc)" using rest res(1) by simp
    from Cons.IH[OF c1 f1 rest'] m1 res(2) show ?thesis by auto
  qed
qed

theorem balance_is_clamped_fold_witness:
  "db_consistent example_db
   \<and> find_product ''p1'' example_db = Some example_product
   \<and> (\<exists>d' accepted p'. insert_all example_requests example_db = (d', accepted)
         \<and> stock_movements d' = stock_movements example_db @ accepted
         \<and> map quantity accepted = [800, 1500]
         \<and> find_product ''p1'' d' = Some p'
         \<and> current_quantity p' = 1500)"
proof -
  have h1: "db_consistent example_db" by (rule example_db_consistent)
  have h2: "find_product ''p1'' example_db = Some example_product"
    by (simp add: find_product_def example_defs)
  obtain d' where h3: "insert_all example_requests example_db = (d', 
   [example_exit\<lparr>movement_pk := ''m1'', created_at := 7\<rparr>, example_entry\<lparr>movement_pk := ''m2'', created_at := 9\<rparr>])"
    using example_requests_result by blast
  from balance_is_clamped_fold[OF h1 h2 h3] h1 h2 h3 show ?thesis
    by (auto simp add: example_defs spec_balance_step_def)
qed

section \<open>What the quantity step touches\<close>

text \<open>
  Claim C8.  Whenever the trigger \<open>update_product_quantity\<close> returns, the rows of
  \<open>products\<close> are the old rows in the old order; a row whose key is not the movement's
  \<open>product_id\<close> is unchanged, and any row is unchanged outside \<open>current_quantity\<close> and
  \<open>updated_at\<close>.  In a consistent database at most one row has that key.  The other
  tables are unchanged.
\<close>

theorem quantity_step_frame:
  assumes "update_product_quantity e NEW d = Inr d'"
  shows "list_all2 (\<lambda>r r'. (product_pk r \<noteq> product_id NEW \<longrightarrow> r' = r)
                  \<and> r' = r\<lparr>current_quantity := current_quantity r', updated_at := updated_at r'\<rparr>)
           (products d) (products d')
       \<and> (db_consistent d \<longrightarrow> length (filter (\<lambda>r. product_pk r = product_id NEW) (products d)) \<le> 1)
       \<and> stock_movements d' = stock_movements d \<and> categories d' = categories d
       \<and> profiles d' = profiles d \<and> auth_users d' = auth_users d"
proof -
  have other: "stock_movements d' = stock_movements d \<and> categories d' = categories d
       \<and> profiles d' = profiles d \<and> auth_users d' = auth_users d"
    using assms
    by (auto simp add: update_product_quantity_def and_then_Inr_iff split: if_splits)
  have "db_consistent d \<longrightarrow> length (filter (\<lambda>r. product_pk r = product_id NEW) (products d)) \<le> 1"
    using distinct_key_filter[of product_pk "products d" "product_id NEW"]
    by (simp add: db_consistent_def)
  with trigger_frame_rows[OF assms] other show ?thesis by blast
qed

theorem quantity_step_frame_witness:
  "\<exists>d'. update_product_quantity example_env example_exit example_db = Inr d'
      \<and> list_all2 (\<lambda>r r'. (product_pk r \<noteq> product_id example_exit \<longrightarrow> r' = r)
                  \<and> r' = r\<lparr>current_quantity := current_quantity r', updated_at := updated_at r'\<rparr>)
           (products example_db) (products d')
      \<and> length (filter (\<lambda>r. product_pk r = product_id example_exit) (products example_db)) \<le> 1
      \<and> stock_movements d' = stock_movements example_db \<and> categories d' = categories example_db
      \<and> profiles d' = profiles example_db \<and> auth_users d' = auth_users example_db"
proof -
  have h1: "db_consistent example_db" by (rule example_db_consistent)
  obtain d' where h: "update_product_quantity example_env example_exit example_db = Inr d'"
    by (simp add: example_defs update_product_quantity_def
      products_constraints_def fits_decimal_10_2_def update_updated_at_column_def)
  from quantity_step_frame[OF h] h h1 show ?thesis by blast
qed

section \<open>Validation of a movement\<close>

text \<open>
  Claim C3.  A movement whose quantity is at most zero is not created, whatever its
  type.  On the stock page, \<open>handleSubmit\<close> stops at its own validation: it shows one of
  its two validation messages and does not touch the database.  A request that reaches
  the REST interface with such a number fails.  And at the table, a row with
  \<open>quantity \<le> 0\<close> is refused; when the caller is the responsible user the refusal is
  the violation of \<open>CHECK (quantity > 0)\<close> for every quantity of the column type (a
  number that is no \<open>DECIMAL(10,2)\<close> value is refused as out of range before that).  A
  refused statement returns no database, so no row is stored and no balance changes.
\<close>

theorem nonpositive_quantity_rejected:
  "(le_zero (parseFloat (form_quantity formData)) \<longrightarrow>
      Stock_handleSubmit parseFloat e userId formData d
        \<in> {(Toast_error ''Preencha todos os campos obrigatorios'', d),
            (Toast_error ''A quantidade deve ser maior que zero'', d)})
   \<and> (le_zero q \<longrightarrow> (\<exists>err. rest_insert_stock_movement e pid mtype q nts uid d = Inl err))
   \<and> (quantity v \<le> 0 \<longrightarrow>
        (\<exists>err. insert_stock_movement e v d = Inl err)
        \<and> (auth_uid e = Some (responsible_user_id v) \<longrightarrow>
             insert_stock_movement e v d
               = Inl (if fits_decimal_10_2 (quantity v) then Check_violation
                      else Numeric_value_out_of_range)))"
proof (intro conjI impI)
  assume "le_zero (parseFloat (form_quantity formData))"
  then show "Stock_handleSubmit parseFloat e userId formData d
        \<in> {(Toast_error ''Preencha todos os campos obrigatorios'', d),
            (Toast_error ''A quantidade deve ser maior que zero'', d)}"
    by (simp add: Stock_handleSubmit_def)
next
  assume "le_zero q"
  then show "\<exists>err. rest_insert_stock_movement e pid mtype q nts uid d = Inl err"
    by (rule rest_insert_nonpositive)
next
  assume "quantity v \<le> 0"
  then show "\<exists>err. insert_stock_movement e v d = Inl err"
    by (simp add: insert_nonpositive)
next
  assume "quantity v \<le> 0" and "auth_uid e = Some (responsible_user_id v)"
  then show "insert_stock_movement e v d
               = Inl (if fits_decimal_10_2 (quantity v) then Check_violation
                      else Numeric_value_out_of_range)"
    by (simp add: insert_nonpositive)
qed

theorem nonpositive_quantity_rejected_witness:
  "le_zero (example_parseFloat (form_quantity example_stock_form))
   \<and> Stock_handleSubmit example_parseFloat example_env ''u1'' example_stock_form example_db
       = (Toast_error ''A quantidade deve ser maior que zero'', example_db)
   \<and> le_zero (Finite (- 5))
   \<and> (\<exists>err. rest_insert_stock_movement example_env ''p1'' ''saida'' (Finite (- 5)) None ''u1''
               example_db = Inl err)
   \<and> quantity (example_exit\<lparr>quantity := 0\<rparr>) \<le> 0
   \<and> auth_uid example_env = Some (responsible_user_id (example_exit\<lparr>quantity := 0\<rparr>))
   \<and> insert_stock_movement example_env (example_exit\<lparr>quantity := 0\<rparr>) example_db
       = Inl Check_violation"
proof -
  have h1: "le_zero (example_parseFloat (form_quantity example_stock_form))"
    by (simp add: example_defs le_zero_def)
  have h2: "le_zero (Finite (- 5))" by (simp add: le_zero_def)
  have h3: "quantity (example_exit\<lparr>quantity := 0\<rparr>) \<le> 0" by simp
  have h4: "auth_uid example_env = Some (responsible_user_id (example_exit\<lparr>quantity := 0\<rparr>))"
    by (simp add: example_defs)
  have h5: "fits_decimal_10_2 (quantity (example_exit\<lparr>quantity := 0\<rparr>))"
    by (simp add: fits_decimal_10_2_def)
  have ne: "(Toast_error ''Preencha todos os campos obrigatorios'', example_db)
     \<noteq> Stock_handleSubmit example_parseFloat example_env ''u1'' example_stock_form example_db"
    by (simp add: Stock_handleSubmit_def example_stock_form_def example_parseFloat_def le_zero_def)
  from nonpositive_quantity_rejected[of example_parseFloat example_stock_form example_env "''u1''" example_db
      "Finite (- 5)" "''p1''" "''saida''" None "''u1''" "example_exit\<lparr>quantity := 0\<rparr>"]
    h1 h2 h3 h4 h5 ne
  show ?thesis by auto
qed



section \<open>Low stock\<close>

text \<open>
  Claim C5.  The flag of the stock page's table, the alert list of the stock page and the
  count of the dashboard all use the specification's classification
  \<open>current_quantity \<le> minimum_quantity\<close>: the list is the filter of the product list by
  it, the count is the length of that filter over the same rows, and a product whose
  quantity equals its minimum is low on stock.  Each is a function of the product rows
  it is given and of nothing else.
\<close>

theorem low_stock_classification:
  "isLowStock p = spec_is_low_stock p
   \<and> getLowStockProducts ps = filter spec_is_low_stock ps
   \<and> lowStockProducts (Some (map (\<lambda>r. (current_quantity r, minimum_quantity r)) ps))
       = length (filter spec_is_low_stock ps)
   \<and> loadDashboardData_lowStockProducts e d = length (getLowStockProducts (select_products e d))
   \<and> isLowStock (p\<lparr>current_quantity := minimum_quantity p\<rparr>)
   \<and> (p \<in> set (getLowStockProducts ps)
        \<longleftrightarrow> p \<in> set ps \<and> current_quantity p \<le> minimum_quantity p)"
proof -
  have fn: "spec_is_low_stock = (\<lambda>r. current_quantity r \<le> minimum_quantity r)"
    by (simp add: fun_eq_iff spec_is_low_stock_def)
  show ?thesis
    unfolding fn
    by (simp add: isLowStock_def getLowStockProducts_def
        lowStockProducts_def loadDashboardData_lowStockProducts_def comp_def)
qed

theorem low_stock_classification_witness:
  "isLowStock example_product
   \<and> getLowStockProducts (products example_db) = [example_product]
   \<and> loadDashboardData_lowStockProducts example_env example_db = 1
   \<and> isLowStock (example_product\<lparr>current_quantity := 1000\<rparr>)
   \<and> \<not> isLowStock (example_product\<lparr>current_quantity := 1001\<rparr>)"
proof -
  have a: "filter spec_is_low_stock (products example_db) = [example_product]"
    by (simp add: example_defs spec_is_low_stock_def)
  have b: "select_products example_env example_db = products example_db"
    by (simp add: select_products_def permitted_def products_policy_def example_defs)
  have c: "minimum_quantity example_product = 1000" by (simp add: example_defs)
  from low_stock_classification[of example_product "products example_db" example_env example_db]
    low_stock_classification[of "example_product\<lparr>current_quantity := 1001\<rparr>" "[]" example_env example_db] a b c
  show ?thesis
    by (simp add: spec_is_low_stock_def example_product_def)
qed

section \<open>The ledger is append-only\<close>

text \<open>
  Claim C6.  An \<open>UPDATE\<close> or a \<open>DELETE\<close> request on \<open>stock_movements\<close> changes nothing, for
  any caller, filter and assignment, because the table has no policy for these commands.
  Over any sequence of requests a movement of the ledger stays in the ledger as it is,
  unless one of the requests is the confirmed deletion of its product; and when no
  request is a confirmed deletion of a product, the ledger only grows at its end.
\<close>

theorem ledger_append_only:
  "rest_update_stock_movements e wh st d = d
   \<and> rest_delete_stock_movements e wh d = d
   \<and> (m \<in> set (stock_movements d) \<longrightarrow>
        m \<in> set (stock_movements (run parseFloat rqs d))
        \<or> (\<exists>e'. (e', Products_delete True (product_id m)) \<in> set rqs))
   \<and> ((\<forall>e' pid. (e', Products_delete True pid) \<notin> set rqs) \<longrightarrow>
        (\<exists>new. stock_movements (run parseFloat rqs d) = stock_movements d @ new))"
  using rest_update_stock_movements_denied rest_delete_stock_movements_denied
    run_keeps_movement[of m d parseFloat rqs] run_appends[of rqs parseFloat d]
  by blast

theorem ledger_append_only_witness:
  "example_movement \<in> set (stock_movements example_db)
   \<and> example_movement
        \<in> set (stock_movements (run example_parseFloat example_client_requests example_db))
   \<and> (\<exists>new. stock_movements (run example_parseFloat example_client_requests example_db)
               = stock_movements example_db @ new)"
proof -
  have h1: "example_movement \<in> set (stock_movements example_db)"
    by (simp add: example_db_def)
  have h2: "\<forall>e' pid. (e', Products_delete True pid) \<notin> set example_client_requests"
    by (simp add: example_client_requests_def)
  from ledger_append_only[of _ _ _ example_db example_movement example_parseFloat
      example_client_requests] h1 h2
  show ?thesis by blast
qed

section \<open>Deleting a category\<close>

text \<open>
  Claim C7, amended.  In a consistent database, the deletion of an existing category by
  an authenticated caller succeeds; the category is gone; every product is still there,
  in its place; a product that referenced the category has \<open>category_id\<close> null and
  \<open>updated_at\<close> set to the time of the deletion, and is otherwise unchanged; the other
  products and the ledger are unchanged.
\<close>

theorem category_delete_sets_null:
  assumes "db_consistent d" and "auth_uid e \<noteq> None"
    and "cid \<in> set (map category_pk (categories d))"
  shows "\<exists>d'. delete_category e cid d = Inr d'
           \<and> cid \<notin> set (map category_pk (categories d'))
           \<and> products d' = map (\<lambda>r. if category_id r = Some cid
                                     then r\<lparr>category_id := None, updated_at := now e\<rparr>
                                     else r) (products d)
           \<and> stock_movements d' = stock_movements d"
  using delete_category_result[OF assms] by auto

theorem category_delete_sets_null_witness:
  "db_consistent example_db \<and> auth_uid example_env \<noteq> None
   \<and> ''c1'' \<in> set (map category_pk (categories example_db))
   \<and> delete_category example_env ''c1'' example_db = Inr example_db_without_category"
proof -
  have h1: "db_consistent example_db" by (rule example_db_consistent)
  have h2: "auth_uid example_env \<noteq> None" by (simp add: example_env_def)
  have h3: "''c1'' \<in> set (map category_pk (categories example_db))" by (simp add: example_db_def)
  from category_delete_sets_null[OF h1 h2 h3] obtain d' where
    d': "delete_category example_env ''c1'' example_db = Inr d'"
      "products d' = map (\<lambda>r. if category_id r = Some ''c1''
                                     then r\<lparr>category_id := None, updated_at := now example_env\<rparr>
                                     else r) (products example_db)"
    by blast
  have "delete_category example_env ''c1'' example_db = Inr example_db_without_category"
    by (simp add: delete_category_def example_defs permitted_def categories_policy_def
        products_constraints_def fits_decimal_10_2_def update_updated_at_column_def)
  with d' h1 h2 h3 show ?thesis by simp
qed

text \<open>
  The claim as the specification words it, with every other field unchanged, fails on
  the example: the product that referenced the deleted category comes out with
  \<open>updated_at\<close> 7 instead of 3, so the row with only \<open>category_id\<close> cleared is not in the
  table.
\<close>

theorem category_delete_refreshes_updated_at:
  "example_product \<in> set (products example_db)
   \<and> category_id example_product = Some ''c1''
   \<and> delete_category example_env ''c1'' example_db = Inr example_db_without_category
   \<and> example_product\<lparr>category_id := None\<rparr> \<notin> set (products example_db_without_category)
   \<and> map updated_at (products example_db) = [3, 1]
   \<and> map updated_at (products example_db_without_category) = [7, 1]"
  by (simp add: delete_category_def example_defs permitted_def categories_policy_def
        products_constraints_def fits_decimal_10_2_def update_updated_at_column_def)

section \<open>Listing movements\<close>

text \<open>
  Claim C9, amended.  In a consistent database, and for any ordering the database may
  apply for \<open>ORDER BY created_at DESC\<close>, \<open>loadMovements\<close> returns 50 of the movements the
  caller may read, or all of them when there are fewer, ordered by \<open>created_at\<close>
  descending.  The movements the caller may read are the ones returned together with
  the ones left out, each counted as often as it is in the ledger, and no movement left
  out is more recent than one returned.  Each movement comes with the name and unit of
  its product; and each comes with a display name that is the full name of the
  responsible user's profile only when the responsible user is the caller (whose
  profile is the only one the caller may read) and that name is not empty, and the
  placeholder otherwise.
\<close>

theorem loadMovements_view:
  assumes "db_consistent d"
    and "ordered_by_created_at_desc (select_stock_movements e d)
           (order_by (select_stock_movements e d))"
  shows "length (loadMovements order_by e d) = min 50 (length (select_stock_movements e d))
   \<and> sorted_wrt (\<lambda>a b. created_at (movement a) \<ge> created_at (movement b))
        (loadMovements order_by e d)
   \<and> (\<exists>rest. mset (map movement (loadMovements order_by e d)) + mset rest
                = mset (select_stock_movements e d)
           \<and> (\<forall>v\<in>set (loadMovements order_by e d). \<forall>m\<in>set rest.
                 created_at m \<le> created_at (movement v)))
   \<and> (\<forall>v\<in>set (loadMovements order_by e d).
         movement v \<in> set (select_stock_movements e d)
       \<and> (\<forall>m\<in>set (select_stock_movements e d).
             m \<notin> movement ` set (loadMovements order_by e d)
             \<longrightarrow> created_at m \<le> created_at (movement v))
       \<and> (\<exists>p. find_product (product_id (movement v)) d = Some p
              \<and> embedded_products v = Some (product_name p, unit p))
       \<and> responsible_name v
           = (if auth_uid e = Some (responsible_user_id (movement v))
              then (case find (\<lambda>p. profile_id p = responsible_user_id (movement v)) (profiles d) of
                      None \<Rightarrow> ''Usuario''
                    | Some p \<Rightarrow> if full_name p = [] then ''Usuario'' else full_name p)
              else ''Usuario''))"
proof -
  let ?xs = "select_stock_movements e d"
  let ?ys = "order_by ?xs"
  let ?md = "take 50 ?ys"
  let ?res = "loadMovements order_by e d"
  note o = ordered_take_drop[OF assms(2)]
  have rows: "map movement ?res = ?md" by (rule loadMovements_rows)
  have img: "set ?md = movement ` set ?res"
    by (simp only: rows[symmetric] set_map)
  have "length (map movement ?res) = min 50 (length ?xs)"
    unfolding rows using o(4) by (simp add: min.commute)
  then have len: "length ?res = min 50 (length ?xs)" by simp
  from o(3)[of 50] have "sorted_wrt (\<lambda>a b. created_at a \<ge> created_at b) (map movement ?res)"
    by (simp only: rows)
  then have srt: "sorted_wrt (\<lambda>a b. created_at (movement a) \<ge> created_at (movement b)) ?res"
    by (simp add: sorted_wrt_map)
  have "mset (map movement ?res) + mset (drop 50 ?ys) = mset ?xs
        \<and> (\<forall>v\<in>set ?res. \<forall>m\<in>set (drop 50 ?ys). created_at m \<le> created_at (movement v))"
    using o(1)[of 50] o(2)[of 50] img by (simp add: rows)
  then have rest: "\<exists>rest. mset (map movement ?res) + mset rest = mset ?xs
        \<and> (\<forall>v\<in>set ?res. \<forall>m\<in>set rest. created_at m \<le> created_at (movement v))"
    by blast
  have each: "movement v \<in> set ?xs
       \<and> (\<forall>m\<in>set ?xs. m \<notin> movement ` set ?res \<longrightarrow> created_at m \<le> created_at (movement v))
       \<and> (\<exists>p. find_product (product_id (movement v)) d = Some p
              \<and> embedded_products v = Some (product_name p, unit p))
       \<and> responsible_name v
           = (if auth_uid e = Some (responsible_user_id (movement v))
              then (case find (\<lambda>p. profile_id p = responsible_user_id (movement v)) (profiles d) of
                      None \<Rightarrow> ''Usuario''
                    | Some p \<Rightarrow> if full_name p = [] then ''Usuario'' else full_name p)
              else ''Usuario'')"
    if v: "v \<in> set ?res" for v
  proof -
    from v img have inmd: "movement v \<in> set ?md" by simp
    then have "movement v \<in> set ?ys" by (rule in_set_takeD)
    then have sel: "movement v \<in> set ?xs" using o(5) by simp
    have recent: "created_at m \<le> created_at (movement v)"
      if m: "m \<in> set ?xs" "m \<notin> movement ` set ?res" for m
    proof -
      from m(2) img have "m \<notin> set ?md" by simp
      moreover from m(1) o(5) have "m \<in> set (take 50 ?ys @ drop 50 ?ys)"
        by (simp only: append_take_drop_id)
      then have "m \<in> set (take 50 ?ys) \<union> set (drop 50 ?ys)" by (simp only: set_append)
      ultimately have "m \<in> set (drop 50 ?ys)" by blast
      with o(2)[of 50] inmd show ?thesis by blast
    qed
    from sel have auth: "auth_uid e \<noteq> None" and inm: "movement v \<in> set (stock_movements d)"
      by (simp_all add: select_stock_movements_conv split: if_splits)
    from assms(1) inm have "product_id (movement v) \<in> set (map product_pk (products d))"
      by (simp add: db_consistent_def list_all_iff)
    then obtain p where p: "find_product (product_id (movement v)) d = Some p"
      unfolding find_product_def
      by (cases "find (\<lambda>r. product_pk r = product_id (movement v)) (products d)")
        (auto simp add: find_None_iff)
    from loadMovements_embedded[OF v] auth p
    have emb: "embedded_products v = Some (product_name p, unit p)"
      by (simp add: select_products_conv find_product_def)
    from assms(1) have "distinct (map profile_id (profiles d))" by (simp add: db_consistent_def)
    from loadMovements_name[OF v this]
    have nm: "responsible_name v
           = (if auth_uid e = Some (responsible_user_id (movement v))
              then (case find (\<lambda>p. profile_id p = responsible_user_id (movement v)) (profiles d) of
                      None \<Rightarrow> ''Usuario''
                    | Some p \<Rightarrow> if full_name p = [] then ''Usuario'' else full_name p)
              else ''Usuario'')"
      by (simp split: option.splits)
    from sel recent p emb nm show ?thesis by blast
  qed
  from len srt rest each show ?thesis by blast
qed

theorem loadMovements_view_witness:
  "db_consistent example_busy_db
   \<and> ordered_by_created_at_desc (select_stock_movements example_env example_busy_db)
        (order_by_stable (select_stock_movements example_env example_busy_db))
   \<and> length (select_stock_movements example_env example_busy_db) = 52
   \<and> length (loadMovements order_by_stable example_env example_busy_db) = 50
   \<and> map (\<lambda>v. created_at (movement v))
         (loadMovements order_by_stable example_env example_busy_db)
       = rev (map (\<lambda>i. (i + 1) div 2) [2..<52])
   \<and> sorted_wrt (\<lambda>a b. created_at (movement a) \<ge> created_at (movement b))
        (loadMovements order_by_stable example_env example_busy_db)
   \<and> (\<exists>rest. mset (map movement (loadMovements order_by_stable example_env example_busy_db))
                + mset rest
                = mset (select_stock_movements example_env example_busy_db)
           \<and> length rest = 2)
   \<and> set (map responsible_name (loadMovements order_by_stable example_env example_busy_db))
       = {''Ana''}"
proof -
  have h1: "db_consistent example_busy_db" by (rule example_busy_db_consistent)
  have h2: "ordered_by_created_at_desc (select_stock_movements example_env example_busy_db)
        (order_by_stable (select_stock_movements example_env example_busy_db))"
    by (rule order_by_stable_ordered)
  note t = loadMovements_view[where d = example_busy_db and e = example_env
      and order_by = order_by_stable, OF h1 h2]
  from t have len: "length (loadMovements order_by_stable example_env example_busy_db) = 50"
    by (simp add: example_busy_length)
  from t have srt: "sorted_wrt (\<lambda>a b. created_at (movement a) \<ge> created_at (movement b))
        (loadMovements order_by_stable example_env example_busy_db)"
    by blast
  from t obtain rest where
    rest: "mset (map movement (loadMovements order_by_stable example_env example_busy_db))
             + mset rest
           = mset (select_stock_movements example_env example_busy_db)"
    by blast
  then have "mset (map movement (loadMovements order_by_stable example_env example_busy_db) @ rest)
           = mset (select_stock_movements example_env example_busy_db)"
    by (simp only: mset_append)
  then have "length (map movement (loadMovements order_by_stable example_env example_busy_db) @ rest)
             = length (select_stock_movements example_env example_busy_db)"
    by (rule mset_eq_length)
  with len have "length rest = 2" by (simp add: example_busy_length)
  with rest have ex: "\<exists>rest. mset (map movement
                 (loadMovements order_by_stable example_env example_busy_db)) + mset rest
                = mset (select_stock_movements example_env example_busy_db)
           \<and> length rest = 2"
    by blast
  show ?thesis
    using h1 h2 example_busy_length len example_busy_listing srt ex example_busy_names
    by (intro conjI) assumption+
qed

text \<open>
  The claim as the specification words it, with the responsible profile's full name on
  every row, fails on the example: user \<open>u2\<close> sees the movement of user \<open>u1\<close>, whose
  profile is named Ana, under the placeholder.
\<close>

theorem loadMovements_hides_other_names:
  "loadMovements order_by_stable example_viewer example_db
     = [\<lparr>movement = example_movement,
         embedded_products = Some (''Martelo de Aco'', ''unidade''),
         responsible_name = ''Usuario''\<rparr>]
   \<and> order_by_stable (select_stock_movements example_viewer example_db) = [example_movement]
   \<and> responsible_user_id example_movement = ''u1''
   \<and> map profile_id (profiles example_db) = [''u1'', ''u2'']
   \<and> map full_name (profiles example_db) = [''Ana'', ''Bia'']"
  by (simp add: loadMovements_def select_stock_movements_def select_products_def
      select_profiles_def permitted_def stock_movements_policy_def products_policy_def
      profiles_policy_def example_defs order_by_stable_def)


section \<open>Registering a product\<close>

text \<open>
  Claim C10.  When \<open>handleSubmit\<close> of the product page creates a product, the database
  gains exactly one product row, with the generated key and \<open>current_quantity\<close> 0 (or the
  request fails and nothing changes).  And over any sequence of the application's
  requests, a product with a positive quantity at the end either had a positive
  quantity under the same key at the start, or one of the requests is a submission of
  the stock page with the type \<open>entrada\<close> for that product.
\<close>

theorem registered_product_starts_empty:
  "(Products_handleSubmit parseFloat e None formData d = (t, d') \<longrightarrow>
      d' = d
      \<or> (\<exists>r. d' = d\<lparr>products := products d @ [r]\<rparr> \<and> product_pk r = gen_random_uuid e
              \<and> current_quantity r = 0))
   \<and> (p' \<in> set (products (run parseFloat rqs d)) \<and> 0 < current_quantity p' \<longrightarrow>
        (\<exists>p\<in>set (products d). product_pk p = product_pk p' \<and> 0 < current_quantity p)
        \<or> (\<exists>e' userId formData'. (e', Stock_submit userId formData') \<in> set rqs
              \<and> form_movement_type formData' = ''entrada''
              \<and> form_product_id formData' = product_pk p'))"
proof (intro conjI impI)
  assume r: "Products_handleSubmit parseFloat e None formData d = (t, d')"
  from Products_handleSubmit_cases[OF r]
  show "d' = d
      \<or> (\<exists>r. d' = d\<lparr>products := products d @ [r]\<rparr> \<and> product_pk r = gen_random_uuid e
              \<and> current_quantity r = 0)"
  proof (elim disjE exE conjE)
    assume "d' = d"
    then show ?thesis by simp
  next
    fix nm descr cat un minq
    assume "rest_insert_product e nm descr cat un minq (Finite 0) d = Inr d'"
    from rest_insert_product_zero[OF this] show ?thesis by simp
  next
    fix pid
    assume "None = Some (pid :: uuid)"
    then show ?thesis by simp
  qed
next
  assume "p' \<in> set (products (run parseFloat rqs d)) \<and> 0 < current_quantity p'"
  then show "(\<exists>p\<in>set (products d). product_pk p = product_pk p' \<and> 0 < current_quantity p)
        \<or> (\<exists>e' userId formData'. (e', Stock_submit userId formData') \<in> set rqs
              \<and> form_movement_type formData' = ''entrada''
              \<and> form_product_id formData' = product_pk p')"
    using run_positive_rows[of p' parseFloat rqs d] by blast
qed

theorem registered_product_starts_empty_witness:
  "(\<exists>r. snd (Products_handleSubmit example_parseFloat
              \<lparr>auth_uid = Some ''u1'', now = 8, gen_random_uuid = ''p3''\<rparr> None
              example_product_form example_db)
          = example_db\<lparr>products := products example_db @ [r]\<rparr>
        \<and> product_pk r = ''p3'' \<and> current_quantity r = 0)
   \<and> example_registered_product
        \<in> set (products (run example_parseFloat example_registration example_db))
   \<and> 0 < current_quantity example_registered_product
   \<and> (\<exists>e' userId formData'. (e', Stock_submit userId formData') \<in> set example_registration
          \<and> form_movement_type formData' = ''entrada''
          \<and> form_product_id formData' = product_pk example_registered_product)"
proof -
  let ?e = "\<lparr>auth_uid = Some ''u1'', now = 8, gen_random_uuid = ''p3''\<rparr>"
  let ?d' = "example_db\<lparr>products := products example_db
           @ [example_registered_product\<lparr>current_quantity := 0, updated_at := 8\<rparr>]\<rparr>"
  have ne: "?d' \<noteq> example_db"
    by (simp add: example_db_def db.defs) 
  have h1: "example_registered_product
        \<in> set (products (run example_parseFloat example_registration example_db))"
    by (simp add: example_registration_result)
  have h2: "0 < current_quantity example_registered_product"
    by (simp add: example_registered_product_def)
  have h3: "\<not> (\<exists>p\<in>set (products example_db).
              product_pk p = product_pk example_registered_product \<and> 0 < current_quantity p)"
    by (simp add: example_defs)
  from registered_product_starts_empty[of example_parseFloat ?e example_product_form example_db
      "Toast_success ''Produto criado com sucesso!''" ?d' example_registered_product
      example_registration]
    example_registration_first ne h1 h2 h3
  show ?thesis by auto
qed

end
